theory Spec2Isabelle
  imports Complex_Main "HOL-Library.Monad_Syntax" "HOL-Library.Word"
begin

section \<open>Strings as the lambdas see them\<close>

text \<open>
  A JavaScript string is a sequence of UTF-16 code units and \<open>length\<close> counts them. The model
  uses \<^typ>\<open>string\<close>, one \<^typ>\<open>char\<close> per code unit, which covers text whose code units
  are below 256. The white space of \<open>\s\<close> and of \<open>trim()\<close> in that range is tab, line feed,
  vertical tab, form feed, carriage return, space and the no-break space.
\<close>

abbreviation nl :: char where
  "nl \<equiv> CHR 0x0A"

definition is_space :: "char \<Rightarrow> bool" where
  "is_space c \<longleftrightarrow>
     c = CHR 0x09 \<or> c = nl \<or> c = CHR 0x0B \<or> c = CHR 0x0C \<or> c = CHR 0x0D \<or> c = CHR '' '' \<or>
     c = CHR 0xA0"

definition is_newline :: "char \<Rightarrow> bool" where
  "is_newline c \<longleftrightarrow> c = nl"

text \<open>The character class \<open>[.!?]\<close> of the sentence splitter.\<close>

definition is_sentence_end :: "char \<Rightarrow> bool" where
  "is_sentence_end c \<longleftrightarrow> c = CHR ''.'' \<or> c = CHR ''!'' \<or> c = CHR ''?''"

text \<open>\<open>s.trim()\<close>\<close>

definition js_trim :: "string \<Rightarrow> string" where
  "js_trim s = rev (dropWhile is_space (rev (dropWhile is_space s)))"

text \<open>
  \<open>s.split(/[class]+/)\<close>: the pieces between the maximal runs of separator characters. A
  separator run at the start or at the end of the string leaves an empty piece there, and the
  empty string splits into one empty piece. \<open>in_sep\<close> says that the previous character was a
  separator, \<open>piece\<close> is the piece read so far.
\<close>

fun js_split_acc :: "(char \<Rightarrow> bool) \<Rightarrow> bool \<Rightarrow> string \<Rightarrow> string \<Rightarrow> string list" where
  "js_split_acc P in_sep piece [] = [piece]"
| "js_split_acc P in_sep piece (c # cs) =
     (if P c then (if in_sep then js_split_acc P True piece cs
                   else piece # js_split_acc P True [] cs)
      else js_split_acc P False (piece @ [c]) cs)"

definition js_split :: "(char \<Rightarrow> bool) \<Rightarrow> string \<Rightarrow> string list" where
  "js_split P s = js_split_acc P False [] s"

text \<open>
  \<open>s.replace(/[class]{n,}/g, rep)\<close>: every maximal run of at least \<open>n\<close> characters of the
  class is replaced by \<open>rep\<close>; shorter runs stay.
\<close>

function replace_runs :: "(char \<Rightarrow> bool) \<Rightarrow> nat \<Rightarrow> string \<Rightarrow> string \<Rightarrow> string" where
  "replace_runs P n rep [] = []"
| "replace_runs P n rep (c # cs) =
     (if P c
      then (let run = c # takeWhile P cs
            in (if n \<le> length run then rep else run) @ replace_runs P n rep (dropWhile P cs))
      else c # replace_runs P n rep cs)"
  by pat_completeness auto
termination
  by (relation "measure (\<lambda>(P, n, rep, s). length s)")
     (auto simp: le_imp_less_Suc length_dropWhile_le)

text \<open>A loop body that may not return, run over a list: the first \<open>None\<close> stops it.\<close>

fun for_each :: "('a \<Rightarrow> 's \<Rightarrow> 's option) \<Rightarrow> 'a list \<Rightarrow> 's \<Rightarrow> 's option" where
  "for_each body [] s = Some s"
| "for_each body (x # xs) s = (case body x s of None \<Rightarrow> None | Some s' \<Rightarrow> for_each body xs s')"


section \<open>The chunker (generate\_embeddings.js)\<close>

text \<open>
  The \<open>while (remainingSentence.length > 0)\<close> loop that cuts an over-long sentence into pieces
  of \<open>maxChunkSize\<close> characters. With \<open>maxChunkSize = 0\<close> it pushes empty pieces for ever, so
  the loop is a partial function: not returning is \<open>None\<close>.
\<close>

partial_function (option) hard_split :: "nat \<Rightarrow> string \<Rightarrow> string list \<Rightarrow> string list option" where
  "hard_split maxChunkSize remainingSentence chunks =
     (if length remainingSentence > 0
      then (let chunkSize = min (length remainingSentence) maxChunkSize
            in hard_split maxChunkSize (drop chunkSize remainingSentence)
                 (chunks @ [take chunkSize remainingSentence]))
      else Some chunks)"

text \<open>
  The loop state of \<open>splitTextIntoChunks\<close> is the pair \<open>(chunks, currentChunk)\<close>. The body of
  the inner loop over the sentences of an over-long paragraph:
\<close>

definition add_sentence :: "nat \<Rightarrow> string \<Rightarrow> string list \<times> string \<Rightarrow> (string list \<times> string) option" where
  "add_sentence maxChunkSize sentence st =
     (case st of (chunks, currentChunk) \<Rightarrow>
        if length currentChunk + length sentence + 1 \<le> maxChunkSize
        then Some (chunks,
               currentChunk @ (if currentChunk \<noteq> [] then '' '' else []) @ js_trim sentence @ ''.'')
        else (let chunks1 = (if currentChunk \<noteq> [] then chunks @ [currentChunk] else chunks);
                  currentChunk1 = (if currentChunk \<noteq> [] then [] else currentChunk)
              in if length sentence > maxChunkSize
                 then (case hard_split maxChunkSize sentence chunks1 of
                         None \<Rightarrow> None
                       | Some chunks2 \<Rightarrow> Some (chunks2, currentChunk1))
                 else Some (chunks1, js_trim sentence @ ''.'')))"

text \<open>The body of the outer loop over the paragraphs.\<close>

definition add_paragraph :: "nat \<Rightarrow> string \<Rightarrow> string list \<times> string \<Rightarrow> (string list \<times> string) option" where
  "add_paragraph maxChunkSize paragraph st =
     (case st of (chunks, currentChunk) \<Rightarrow>
        if length paragraph > maxChunkSize
        then (let sentences = filter (\<lambda>s. length (js_trim s) > 0) (js_split is_sentence_end paragraph)
              in for_each (add_sentence maxChunkSize) sentences (chunks, currentChunk))
        else if length currentChunk + length paragraph + 1 \<le> maxChunkSize
        then Some (chunks, currentChunk @ (if currentChunk \<noteq> [] then [nl] else []) @ paragraph)
        else Some (chunks @ [currentChunk], paragraph))"

definition splitTextIntoChunks :: "string \<Rightarrow> nat \<Rightarrow> string list option" where
  "splitTextIntoChunks text maxChunkSize =
     (let paragraphs = filter (\<lambda>p. length (js_trim p) > 0) (js_split is_newline text)
      in case for_each (add_paragraph maxChunkSize) paragraphs ([], []) of
           None \<Rightarrow> None
         | Some (chunks, currentChunk) \<Rightarrow>
             Some (if currentChunk \<noteq> [] then chunks @ [currentChunk] else chunks))"


section \<open>The text normaliser (extract\_text.js)\<close>

text \<open>
  \<open>cleanText\<close> calls two library functions whose code is not part of the repository:
  cheerio's \<open>$.text()\<close> of the loaded markup, here the parameter \<open>html_text\<close>, and
  \<open>String.prototype.normalize\<close>, here the parameter \<open>nfc\<close>. The steps between them
  are the two regular-expression replacements of the source, in the source's order.
\<close>

definition cleanText :: "(string \<Rightarrow> string) \<Rightarrow> (string \<Rightarrow> string) \<Rightarrow> string \<Rightarrow> string" where
  "cleanText html_text nfc text =
     (let cleanedText0 = (if CHR ''<'' \<in> set text \<and> CHR ''>'' \<in> set text then html_text text else text);
          cleanedText1 = replace_runs is_space 1 '' '' cleanedText0;
          cleanedText2 = replace_runs is_newline 3 [nl, nl] cleanedText1;
          cleanedText3 = nfc cleanedText2
      in js_trim cleanedText3)"


section \<open>The retrieval engine (chatbot\_query.js)\<close>

text \<open>
  A call of a service outside the lambda (another lambda, the search index, the session store,
  the tables) either raises, with a message, or returns a value.
\<close>

datatype 'a attempt = Raised string | Returned 'a

text \<open>\<open>s || d\<close> for a string that may be absent: the default when \<open>s\<close> is undefined or empty.\<close>

definition str_or :: "string option \<Rightarrow> string \<Rightarrow> string" where
  "str_or s d = (case s of None \<Rightarrow> d | Some v \<Rightarrow> if v = [] then d else v)"

text \<open>\<open>n || d\<close> for a number that may be absent: the default when \<open>n\<close> is undefined or 0.\<close>

definition nat_or :: "nat option \<Rightarrow> nat \<Rightarrow> nat" where
  "nat_or n d = (case n of None \<Rightarrow> d | Some v \<Rightarrow> if v = 0 then d else v)"

type_synonym embedding = "rat list"

text \<open>
  A hit of the k-NN query: \<open>_score\<close> and the three requested \<open>_source\<close> fields. A score is a
  finite double; the code only compares it with 0.5, so it is modelled by the rational it denotes.
\<close>

record hit =
  hit_score :: rat
  hit_text :: string
  hit_url :: string
  hit_name :: string

record source =
  src_text :: string
  src_url :: string
  src_score :: rat
  src_name :: string

record turn =
  turn_role :: string
  turn_content :: string
  turn_timestamp :: nat

record chatbot_config =
  cfg_model :: "string option"
  cfg_memoryDuration :: "nat option"
  cfg_maxDocuments :: "nat option"

text \<open>The entry pushed to \<open>sources\<close> for a hit: its text cut to 200 characters, url, score, name.\<close>

definition citation :: "hit \<Rightarrow> source" where
  "citation h =
     \<lparr>src_text = (if length (hit_text h) > 200 then take 200 (hit_text h) @ ''...'' else hit_text h),
      src_url = hit_url h, src_score = hit_score h, src_name = hit_name h\<rparr>"

text \<open>The body of \<open>hits.forEach\<close>; the state is \<open>(relevantContent, sources)\<close>.\<close>

definition add_hit :: "hit \<Rightarrow> string \<times> source list \<Rightarrow> string \<times> source list" where
  "add_hit h acc =
     (case acc of (relevantContent, sources) \<Rightarrow>
        if hit_score h > 0.5
        then (relevantContent @ hit_text h @ [nl, nl], sources @ [citation h])
        else (relevantContent, sources))"

text \<open>
  The \<open>try\<close> block of \<open>searchRelevantContent\<close>. \<open>invoke_embedding\<close> is the call of the embedding
  lambda with the parse of its payload (\<open>None\<close>: the payload has no embedding);
  \<open>opensearch_request\<close> is the request to the index with the parse of its body and
  \<open>results.hits?.hits || []\<close>.
\<close>

definition search_try ::
  "(string \<Rightarrow> string \<Rightarrow> embedding option attempt) \<Rightarrow>
   (string \<Rightarrow> embedding \<Rightarrow> nat \<Rightarrow> hit list attempt) \<Rightarrow>
   string \<Rightarrow> string \<Rightarrow> turn list \<Rightarrow> nat \<Rightarrow> string + string \<times> source list" where
  "search_try invoke_embedding opensearch_request tenantId query history maxDocuments =
     (case invoke_embedding query tenantId of
        Raised e \<Rightarrow> Inl e
      | Returned None \<Rightarrow> Inl ''Failed to generate embedding for query''
      | Returned (Some queryEmbedding) \<Rightarrow>
          (case opensearch_request (tenantId @ ''-vectors'') queryEmbedding maxDocuments of
             Raised e \<Rightarrow> Inl e
           | Returned hits \<Rightarrow> Inr (fold add_hit hits ([], []))))"

text \<open>\<open>searchRelevantContent\<close>: the \<open>try\<close> block, and the \<open>catch\<close> that returns the empty context.\<close>

definition searchRelevantContent ::
  "(string \<Rightarrow> string \<Rightarrow> embedding option attempt) \<Rightarrow>
   (string \<Rightarrow> embedding \<Rightarrow> nat \<Rightarrow> hit list attempt) \<Rightarrow>
   string \<Rightarrow> string \<Rightarrow> turn list \<Rightarrow> nat \<Rightarrow> string \<times> source list" where
  "searchRelevantContent invoke_embedding opensearch_request tenantId query history maxDocuments =
     (case search_try invoke_embedding opensearch_request tenantId query history maxDocuments of
        Inl error \<Rightarrow> ([], [])
      | Inr result \<Rightarrow> result)"

abbreviation dq :: char where
  "dq \<equiv> CHR 0x22"

definition buildPromptWithContext :: "string \<Rightarrow> turn list \<Rightarrow> string \<Rightarrow> chatbot_config \<Rightarrow> string" where
  "buildPromptWithContext query history relevantContent config =
     (let prompt0 = ''You are a helpful AI assistant answering questions based on the provided context.''
                    @ [nl, nl];
          prompt1 = (if relevantContent \<noteq> []
                     then prompt0 @ ''Context information:'' @ [nl, dq, dq, dq, nl] @ relevantContent
                          @ [nl, dq, dq, dq, nl, nl]
                     else prompt0);
          prompt2 = (if length history > 0
                     then (let recentHistory = take 10 history
                           in prompt1 @ ''Previous conversation:'' @ [nl]
                              @ concat (map (\<lambda>msg. (if turn_role msg = ''user'' then ''Human'' else ''Assistant'')
                                                    @ '': '' @ turn_content msg @ [nl])
                                          (rev recentHistory))
                              @ [nl])
                     else prompt1)
      in prompt2 @ ''Human: '' @ query @ [nl, nl] @ ''Assistant:'')"

text \<open>The request sent to the inference lambda and the object its payload parses to.\<close>

record inference_request =
  req_prompt :: string
  req_max_tokens :: nat
  req_temperature :: rat
  req_model :: string

record inference =
  inf_error :: "string option"
  inf_response :: "string option"

definition apology :: string where
  "apology = ''I apologize, but I encountered an issue generating a response. Please try again later.''"

text \<open>
  The \<open>try\<close> block of \<open>generateResponse\<close>. \<open>invoke_inference\<close> is the call of the inference
  lambda with the parse of its payload. A truthy \<open>error\<close> field is thrown; a payload without
  \<open>response\<close> makes \<open>inferenceData.response.trim()\<close> throw a TypeError.
\<close>

definition inference_payload :: "string \<Rightarrow> chatbot_config \<Rightarrow> inference_request" where
  "inference_payload prompt config =
     \<lparr>req_prompt = prompt, req_max_tokens = 1000, req_temperature = 0.7,
      req_model = str_or (cfg_model config) ''gpt-3.5-turbo''\<rparr>"

definition generate_try ::
  "(inference_request \<Rightarrow> inference attempt) \<Rightarrow> string \<Rightarrow> chatbot_config \<Rightarrow> string + string" where
  "generate_try invoke_inference prompt config =
     (case invoke_inference (inference_payload prompt config) of
        Raised e \<Rightarrow> Inl e
      | Returned inferenceData \<Rightarrow>
          if str_or (inf_error inferenceData) [] \<noteq> [] then Inl (str_or (inf_error inferenceData) [])
          else (case inf_response inferenceData of
                  None \<Rightarrow> Inl ''TypeError''
                | Some response \<Rightarrow> Inr (js_trim response)))"

text \<open>\<open>generateResponse\<close>: the \<open>try\<close> block, and the \<open>catch\<close> that returns the apology.\<close>

definition generateResponse ::
  "(inference_request \<Rightarrow> inference attempt) \<Rightarrow> string \<Rightarrow> chatbot_config \<Rightarrow> string" where
  "generateResponse invoke_inference prompt config =
     (case generate_try invoke_inference prompt config of
        Inl error \<Rightarrow> apology
      | Inr response \<Rightarrow> response)"

text \<open>The item \<open>recordQuery\<close> puts into the queries table.\<close>

record query_item =
  qi_id :: string
  qi_tenantId :: string
  qi_chatbotId :: string
  qi_sessionId :: string
  qi_query :: string
  qi_responseLength :: nat
  qi_timestamp :: string
  qi_date :: string

definition query_record :: "string \<Rightarrow> string \<Rightarrow> string \<Rightarrow> string \<Rightarrow> string \<Rightarrow> string \<Rightarrow> string \<Rightarrow> query_item" where
  "query_record timestamp queryId tenantId chatbotId sessionId query response =
     \<lparr>qi_id = queryId, qi_tenantId = tenantId, qi_chatbotId = chatbotId, qi_sessionId = sessionId,
      qi_query = query, qi_responseLength = length response, qi_timestamp = timestamp,
      qi_date = takeWhile (\<lambda>c. c \<noteq> CHR ''T'') timestamp\<rparr>"

text \<open>
  The \<open>try\<close> block of \<open>recordQuery\<close>, on the queries table as a list of items: \<open>dynamo_put\<close> says
  whether the put raises.
\<close>

definition recordQuery_try ::
  "(query_item \<Rightarrow> unit attempt) \<Rightarrow> string \<Rightarrow> string \<Rightarrow> query_item list \<Rightarrow>
   string \<Rightarrow> string \<Rightarrow> string \<Rightarrow> string \<Rightarrow> string \<Rightarrow> string + query_item list" where
  "recordQuery_try dynamo_put timestamp queryId queries tenantId chatbotId sessionId query response =
     (let item = query_record timestamp queryId tenantId chatbotId sessionId query response
      in case dynamo_put item of
           Raised e \<Rightarrow> Inl e
         | Returned u \<Rightarrow> Inr (queries @ [item]))"

text \<open>\<open>recordQuery\<close>: the \<open>catch\<close> logs and continues, the table is as it was.\<close>

definition recordQuery ::
  "(query_item \<Rightarrow> unit attempt) \<Rightarrow> string \<Rightarrow> string \<Rightarrow> query_item list \<Rightarrow>
   string \<Rightarrow> string \<Rightarrow> string \<Rightarrow> string \<Rightarrow> string \<Rightarrow> query_item list" where
  "recordQuery dynamo_put timestamp queryId queries tenantId chatbotId sessionId query response =
     (case recordQuery_try dynamo_put timestamp queryId queries tenantId chatbotId sessionId query response of
        Inl error \<Rightarrow> queries
      | Inr queries' \<Rightarrow> queries')"


text \<open>
  The handler. Its surroundings are the services it calls and the stores it writes: the session
  store (per key the list of turns, newest first, and the key's time to live in seconds) and
  the queries table.
\<close>

datatype redis_op = Connect | LRange | LPushUser | LPushAssistant | Expire

record services =
  dynamo_get_config :: "string \<Rightarrow> string \<Rightarrow> chatbot_config option attempt"
  redis_fault :: "redis_op \<Rightarrow> string option"
  invoke_embedding :: "string \<Rightarrow> string \<Rightarrow> embedding option attempt"
  opensearch_request :: "string \<Rightarrow> embedding \<Rightarrow> nat \<Rightarrow> hit list attempt"
  invoke_inference :: "inference_request \<Rightarrow> inference attempt"
  dynamo_put :: "query_item \<Rightarrow> unit attempt"
  uuid_session :: string
  uuid_query :: string
  date_now :: nat
  iso_now :: string

record world =
  w_history :: "string \<Rightarrow> turn list"
  w_expire :: "string \<Rightarrow> nat option"
  w_queries :: "query_item list"

record request_body =
  b_query :: "string option"
  b_sessionId :: "string option"

text \<open>
  The event: the parse of its body (which raises on malformed JSON), the path parameter, and
  the read \<open>event.requestContext.authorizer?.claims['custom:tenantId']\<close> of the tenant, which
  raises a TypeError when the event has no \<open>requestContext\<close> or its authorizer has no
  \<open>claims\<close>.
\<close>

record event =
  ev_body :: "request_body attempt"
  ev_chatbotId :: "string option"
  ev_tenantId :: "string option attempt"

datatype http_response =
    Ok200 string string "source list"
  | BadRequest400
  | NotFound404
  | InternalError500 string

text \<open>\<open>getChatbotConfig\<close>: the item of the workflow table, \<open>null\<close> when the read raises.\<close>

definition getChatbotConfig :: "services \<Rightarrow> string \<Rightarrow> string \<Rightarrow> chatbot_config option" where
  "getChatbotConfig env chatbotId tenantId =
     (case dynamo_get_config env chatbotId tenantId of Raised e \<Rightarrow> None | Returned item \<Rightarrow> item)"

text \<open>
  The part of the handler's \<open>try\<close> block after the configuration is found. An exception leaves
  the stores as they are at that point.
\<close>

definition answer_try ::
  "services \<Rightarrow> world \<Rightarrow> string \<Rightarrow> string \<Rightarrow> string \<Rightarrow> string \<Rightarrow> chatbot_config \<Rightarrow>
   world \<times> (string + http_response)" where
  "answer_try env w tenantId chatbotId sessionId query chatbotConfig =
     (case redis_fault env Connect of Some e \<Rightarrow> (w, Inl e) | None \<Rightarrow>
      let conversationHistoryKey = tenantId @ '':'' @ chatbotId @ '':'' @ sessionId @ '':history''
      in
      case redis_fault env LRange of Some e \<Rightarrow> (w, Inl e) | None \<Rightarrow>
      let conversationHistory = w_history w conversationHistoryKey;
          memoryDuration = nat_or (cfg_memoryDuration chatbotConfig) 60;
          found = searchRelevantContent (invoke_embedding env) (opensearch_request env)
                    tenantId query conversationHistory (nat_or (cfg_maxDocuments chatbotConfig) 5);
          relevantContent = fst found;
          sources = snd found;
          prompt = buildPromptWithContext query conversationHistory relevantContent chatbotConfig;
          response = generateResponse (invoke_inference env) prompt chatbotConfig
      in
      case redis_fault env LPushUser of Some e \<Rightarrow> (w, Inl e) | None \<Rightarrow>
      let w1 = w\<lparr>w_history := (w_history w)(conversationHistoryKey :=
                    \<lparr>turn_role = ''user'', turn_content = query, turn_timestamp = date_now env\<rparr>
                    # w_history w conversationHistoryKey)\<rparr>
      in
      case redis_fault env LPushAssistant of Some e \<Rightarrow> (w1, Inl e) | None \<Rightarrow>
      let w2 = w1\<lparr>w_history := (w_history w1)(conversationHistoryKey :=
                    \<lparr>turn_role = ''assistant'', turn_content = response, turn_timestamp = date_now env\<rparr>
                    # w_history w1 conversationHistoryKey)\<rparr>
      in
      case redis_fault env Expire of Some e \<Rightarrow> (w2, Inl e) | None \<Rightarrow>
      let w3 = w2\<lparr>w_expire := (w_expire w2)(conversationHistoryKey \<mapsto> memoryDuration * 60)\<rparr>;
          w4 = w3\<lparr>w_queries := recordQuery (dynamo_put env) (iso_now env) (uuid_query env) (w_queries w3)
                                   tenantId chatbotId sessionId query response\<rparr>
      in (w4, Inr (Ok200 response sessionId sources)))"

text \<open>The handler's \<open>try\<close> block.\<close>

definition handler_try :: "services \<Rightarrow> world \<Rightarrow> event \<Rightarrow> world \<times> (string + http_response)" where
  "handler_try env w ev =
     (case ev_body ev of
        Raised e \<Rightarrow> (w, Inl e)
      | Returned body \<Rightarrow>
          (case ev_tenantId ev of
             Raised e \<Rightarrow> (w, Inl e)
           | Returned claimed \<Rightarrow>
               (let sessionId = str_or (b_sessionId body) (uuid_session env)
                in if str_or (ev_chatbotId ev) [] = [] \<or> str_or (b_query body) [] = []
                      \<or> str_or claimed [] = []
                   then (w, Inr BadRequest400)
                   else (let chatbotId = str_or (ev_chatbotId ev) []; query = str_or (b_query body) [];
                             tenantId = str_or claimed []
                         in case getChatbotConfig env chatbotId tenantId of
                              None \<Rightarrow> (w, Inr NotFound404)
                            | Some chatbotConfig \<Rightarrow>
                                answer_try env w tenantId chatbotId sessionId query chatbotConfig))))"

text \<open>The handler: the \<open>catch\<close> answers 500 with the error's message.\<close>

definition handler :: "services \<Rightarrow> world \<Rightarrow> event \<Rightarrow> world \<times> http_response" where
  "handler env w ev =
     (case handler_try env w ev of
        (w', Inl error) \<Rightarrow> (w', InternalError500 error)
      | (w', Inr response) \<Rightarrow> (w', response))"


text \<open>
  The ways the generation step fails inside \<open>generateResponse\<close>: the call of the inference
  lambda raises (the payload that does not parse is part of that), the payload carries a truthy
  \<open>error\<close>, or it carries no \<open>response\<close>.
\<close>

definition generation_fails :: "(inference_request \<Rightarrow> inference attempt) \<Rightarrow> inference_request \<Rightarrow> bool" where
  "generation_fails call req =
     (case call req of
        Raised e \<Rightarrow> True
      | Returned d \<Rightarrow> str_or (inf_error d) [] \<noteq> [] \<or> inf_response d = None)"

text \<open>
  The ways the similarity search fails inside \<open>searchRelevantContent\<close>: the embedding call
  raises or returns no embedding, or the request to the index raises.
\<close>

definition search_fails ::
  "(string \<Rightarrow> string \<Rightarrow> embedding option attempt) \<Rightarrow>
   (string \<Rightarrow> embedding \<Rightarrow> nat \<Rightarrow> hit list attempt) \<Rightarrow> string \<Rightarrow> string \<Rightarrow> nat \<Rightarrow> bool" where
  "search_fails embed_call index_call tenantId query maxDocuments =
     (case embed_call query tenantId of
        Raised e \<Rightarrow> True
      | Returned None \<Rightarrow> True
      | Returned (Some v) \<Rightarrow>
          (case index_call (tenantId @ ''-vectors'') v maxDocuments of
             Raised e \<Rightarrow> True
           | Returned hits \<Rightarrow> False))"


section \<open>The crawler (rag\_crawler.js)\<close>

text \<open>\<open>s.startsWith(p)\<close> and \<open>s.endsWith(p)\<close>\<close>

definition starts_with :: "string \<Rightarrow> string \<Rightarrow> bool" where
  "starts_with s p \<longleftrightarrow> take (length p) s = p"

definition ends_with :: "string \<Rightarrow> string \<Rightarrow> bool" where
  "ends_with s p \<longleftrightarrow> length p \<le> length s \<and> drop (length s - length p) s = p"

text \<open>
  Parsing a URL is the platform's (\<open>new URL(url)\<close>): \<open>url_hostname\<close> gives the host name of a
  URL, or \<open>None\<close> where the constructor throws.
\<close>

definition isValidUrl :: "(string \<Rightarrow> string option) \<Rightarrow> string \<Rightarrow> bool" where
  "isValidUrl url_hostname url =
     (case url_hostname url of
        None \<Rightarrow> False
      | Some h \<Rightarrow> starts_with url ''http://'' \<or> starts_with url ''https://'')"

definition isSameDomain :: "(string \<Rightarrow> string option) \<Rightarrow> string \<Rightarrow> string \<Rightarrow> bool" where
  "isSameDomain url_hostname url domain =
     (case url_hostname url of
        None \<Rightarrow> False
      | Some urlDomain \<Rightarrow> urlDomain = domain \<or> ends_with urlDomain (''.'' @ domain))"

text \<open>\<open>[...new Set(xs)]\<close>: the elements in the order of their first occurrence.\<close>

definition set_order :: "'a list \<Rightarrow> 'a list" where
  "set_order xs = fold (\<lambda>x acc. if x \<in> set acc then acc else acc @ [x]) xs []"

text \<open>The slices \<open>urlsToCrawl.slice(i, i + batchSize)\<close> for \<open>i = 0, 5, 10, ...\<close>
  (\<open>batchSize\<close> is the constant 5).\<close>

function batches_of_5 :: "'a list \<Rightarrow> 'a list list" where
  "batches_of_5 urlsToCrawl =
     (if urlsToCrawl = [] then [] else take 5 urlsToCrawl # batches_of_5 (drop 5 urlsToCrawl))"
  by pat_completeness auto
termination
  by (relation "measure length") auto

declare batches_of_5.simps [simp del]

text \<open>
  The crawl's variables. \<open>fetched\<close> is not a variable of the source: it lists, in call order,
  the URLs that \<open>crawlUrl\<close> was called with, which is what the crawler requests from the network
  (redirects that the HTTP client follows on its own are not part of the model).
\<close>

record crawl_state =
  visitedUrls :: "string set"
  fetched :: "string list"
  crawledPages :: "(string \<times> string) list"
  newUrlsToCrawl :: "string list"

text \<open>
  What the crawl depends on: the result \<open>(content, links)\<close> of \<open>crawlUrl\<close> for a URL (it
  catches its own errors and then returns no content and no links), the URL parser, and the order
  in which the requests of one batch complete.
\<close>

record web_env =
  crawlUrl :: "string \<Rightarrow> string \<times> string list"
  url_hostname :: "string \<Rightarrow> string option"
  completion_order :: "(string \<times> string \<times> string list) list \<Rightarrow> (string \<times> string \<times> string list) list"

text \<open>
  A batch runs \<open>urlBatch.map(async ...)\<close>: each callback runs up to its first \<open>await\<close> before the
  next one starts, so the test of \<open>visitedUrls\<close>, the \<open>add\<close> and the call of \<open>crawlUrl\<close> happen
  for the whole batch in batch order (\<open>start_batch\<close>). The rest of each callback runs when its
  request completes (\<open>finish_url\<close>), in the order \<open>completion_order\<close> gives.
\<close>

fun start_batch :: "web_env \<Rightarrow> string list \<Rightarrow> crawl_state \<Rightarrow> crawl_state \<times> (string \<times> string \<times> string list) list" where
  "start_batch env [] st = (st, [])"
| "start_batch env (urlToCrawl # rest) st =
     (if urlToCrawl \<in> visitedUrls st then start_batch env rest st
      else (case start_batch env rest
                   (st\<lparr>visitedUrls := insert urlToCrawl (visitedUrls st),
                       fetched := fetched st @ [urlToCrawl]\<rparr>) of
              (st', started) \<Rightarrow> (st', (urlToCrawl, crawlUrl env urlToCrawl) # started)))"

definition finish_url :: "web_env \<Rightarrow> string \<Rightarrow> bool \<Rightarrow> string \<times> string \<times> string list \<Rightarrow> crawl_state \<Rightarrow> crawl_state" where
  "finish_url env domain more_levels page st =
     (case page of (urlToCrawl, content, links) \<Rightarrow>
        (let st1 = (if js_trim content \<noteq> []
                    then st\<lparr>crawledPages := crawledPages st @ [(urlToCrawl, content)]\<rparr> else st)
         in if more_levels
            then st1\<lparr>newUrlsToCrawl := newUrlsToCrawl st1 @
                       filter (\<lambda>link. link \<notin> visitedUrls st1 \<and> isSameDomain (url_hostname env) link domain) links\<rparr>
            else st1))"

definition crawl_batch :: "web_env \<Rightarrow> string \<Rightarrow> bool \<Rightarrow> string list \<Rightarrow> crawl_state \<Rightarrow> crawl_state" where
  "crawl_batch env domain more_levels urlBatch st =
     (case start_batch env urlBatch st of
        (st1, started) \<Rightarrow> fold (finish_url env domain more_levels) (completion_order env started) st1)"

text \<open>The loop \<open>for (depth = 0; depth < crawlDepth; depth++)\<close> with its \<open>break\<close>.\<close>

function crawl_levels :: "web_env \<Rightarrow> string \<Rightarrow> nat \<Rightarrow> nat \<Rightarrow> string list \<Rightarrow> crawl_state \<Rightarrow> crawl_state" where
  "crawl_levels env domain crawlDepth depth urlsToCrawl st =
     (if depth < crawlDepth
      then (let st1 = fold (crawl_batch env domain (depth < crawlDepth - 1)) (batches_of_5 urlsToCrawl)
                        (st\<lparr>newUrlsToCrawl := []\<rparr>);
                urlsToCrawl1 = set_order (newUrlsToCrawl st1)
            in if urlsToCrawl1 = [] then st1
               else crawl_levels env domain crawlDepth (depth + 1) urlsToCrawl1 st1)
      else st)"
  by pat_completeness (simp only: prod.inject)
termination
proof (relation "measure (\<lambda>(env, domain, crawlDepth, depth, urls, st). crawlDepth - depth)")
  show "wf (measure (\<lambda>(env, domain, crawlDepth, depth, urls, st). crawlDepth - depth))"
    by simp
next
  fix env :: web_env and domain :: string and crawlDepth depth :: nat
    and urlsToCrawl xa :: "string list" and st x :: crawl_state
  assume "depth < crawlDepth"
  then show "((env, domain, crawlDepth, depth + 1, xa, x), env, domain, crawlDepth, depth, urlsToCrawl, st)
     \<in> measure (\<lambda>(env, domain, crawlDepth, depth, urls, st). crawlDepth - depth)"
    by simp
qed

declare crawl_levels.simps [simp del]

text \<open>
  The crawl of the handler, up to the end of the loop: \<open>normalizeUrl\<close> and the url-parse
  library's host name of the base URL are taken as parameters.
\<close>

definition crawl ::
  "web_env \<Rightarrow> (string \<Rightarrow> string) \<Rightarrow> (string \<Rightarrow> string) \<Rightarrow> string \<Rightarrow> nat option \<Rightarrow> string + crawl_state" where
  "crawl env normalizeUrl parse_hostname url configCrawlDepth =
     (let crawlDepth = nat_or configCrawlDepth 1
      in if \<not> isValidUrl (url_hostname env) url then Inl (''Invalid URL: '' @ url)
         else (let baseUrl = normalizeUrl url; domain = parse_hostname baseUrl
               in Inr (crawl_levels env domain crawlDepth 0 [baseUrl]
                         \<lparr>visitedUrls = {}, fetched = [], crawledPages = [], newUrlsToCrawl = []\<rparr>)))"


section \<open>Input validation (validate\_input.js)\<close>

text \<open>
  The values of the event's fields, as JSON gives them: \<open>null\<close>, a boolean, a number, a string,
  an array, or another object; an absent field is \<open>None\<close>.

  A number has one of two forms. \<open>JNum n\<close> is a number whose value is an integer from \<open>-2^53\<close>
  to \<open>2^53 - 1\<close>: a double holds each of these exactly, and \<open>String\<close> prints it as the decimal
  digits of the integer, with a minus sign when it is negative. The type of 54-bit words stands
  for this range of integers; a word is read with \<^const>\<open>sint\<close>, and no arithmetic is done on it.
  \<open>JNumPrint p\<close> is any other number (a fraction, a larger magnitude, \<open>NaN\<close>, an infinity),
  given by the string \<open>p\<close> that \<open>String\<close> prints for it, such as \<open>2.5\<close>, \<open>2e+21\<close> or \<open>NaN\<close>: the
  handler reads a number only through \<open>parseInt\<close>, which parses that print, through its
  truthiness, and through \<open>typeof\<close>.
\<close>

datatype jsval =
  JNull | JBool bool | JNum "54 word" | JNumPrint string | JStr string | JArr "jsval list" | JObj

text \<open>Whether \<open>!v\<close> is false. The falsy numbers are the zeros, which print as \<open>0\<close>, and \<open>NaN\<close>.\<close>

definition truthy :: "jsval option \<Rightarrow> bool" where
  "truthy v =
     (case v of
        None \<Rightarrow> False
      | Some JNull \<Rightarrow> False
      | Some (JBool b) \<Rightarrow> b
      | Some (JNum n) \<Rightarrow> n \<noteq> 0
      | Some (JNumPrint p) \<Rightarrow> p \<noteq> ''0'' \<and> p \<noteq> ''NaN''
      | Some (JStr s) \<Rightarrow> s \<noteq> []
      | Some (JArr vs) \<Rightarrow> True
      | Some JObj \<Rightarrow> True)"

text \<open>
  \<open>parseInt(s, 10)\<close> of a string: leading white space is skipped, a sign is read, and the longest
  run of decimal digits is the value; \<open>None\<close> is \<open>NaN\<close> (no digit).
\<close>

definition is_digit :: "char \<Rightarrow> bool" where
  "is_digit c \<longleftrightarrow> (48::nat) \<le> of_char c \<and> of_char c \<le> (57::nat)"

definition digits_value :: "string \<Rightarrow> int" where
  "digits_value ds = foldl (\<lambda>a c. 10 * a + (of_char c - 48)) 0 ds"

definition parse_int10 :: "string \<Rightarrow> int option" where
  "parse_int10 s =
     (let s1 = dropWhile is_space s;
          negative = (s1 \<noteq> [] \<and> hd s1 = CHR ''-'');
          s2 = (if s1 \<noteq> [] \<and> (hd s1 = CHR ''-'' \<or> hd s1 = CHR ''+'') then tl s1 else s1);
          ds = takeWhile is_digit s2
      in if ds = [] then None
         else Some (if negative then - digits_value ds else digits_value ds))"

text \<open>
  \<open>parseInt(v, 10)\<close> of a value, which parses \<open>String(v)\<close>: a number \<open>JNum n\<close> prints as the
  digits of its integer, which are read back; any other number is parsed from its print, so
  that what follows the leading digits (a fraction, an exponent) is dropped;
  \<open>null\<close>, booleans and objects print as words; an array prints its elements separated by
  commas, so what is parsed is the print of its first element, and nothing when it is empty.
\<close>

fun parseInt10 :: "jsval \<Rightarrow> int option" where
  "parseInt10 JNull = None"
| "parseInt10 (JBool b) = None"
| "parseInt10 (JNum n) = Some (sint n)"
| "parseInt10 (JNumPrint p) = parse_int10 p"
| "parseInt10 (JStr s) = parse_int10 s"
| "parseInt10 (JArr []) = None"
| "parseInt10 (JArr (v # vs)) = parseInt10 v"
| "parseInt10 JObj = None"


text \<open>
  The event of the pipeline. The tenant id is a string when it is present. \<open>pe_dataSources\<close>
  is \<open>None\<close> when the field is absent or not an array; an element is \<open>None\<close> when it is \<open>null\<close>; \<open>pe_config\<close> is \<open>None\<close> when the field is
  absent, \<open>null\<close> or not an object.
\<close>

record data_source =
  ds_type :: "jsval option"
  ds_url :: "jsval option"
  ds_name :: "jsval option"

record pipeline_config =
  pc_crawlDepth :: "jsval option"
  pc_memoryDuration :: "jsval option"
  pc_maxDocuments :: "jsval option"
  pc_embeddingModel :: "jsval option"

record pipeline_event =
  pe_tenantId :: "string option"
  pe_dataSources :: "data_source option list option"
  pe_config :: "pipeline_config option"

text \<open>The messages pushed to \<open>errors\<close>, with the values their texts embed.\<close>

datatype validation_error =
    MissingTenantId
  | TenantNotFound string
  | TenantLookupError string
  | BadDataSources
  | MissingType nat
  | InvalidType nat "jsval option"
  | MissingUrl nat
  | MissingName nat
  | BadConfig
  | BadCrawlDepth
  | BadMemoryDuration
  | BadMaxDocuments
  | BadEmbeddingModel
  | ValidationException string

text \<open>The result; \<open>validatedConfig = None\<close> is the empty object.\<close>

record validation =
  isValid :: bool
  errors :: "validation_error list"
  validatedTenantId :: "string option"
  validatedDataSources :: "data_source option list"
  validatedConfig :: "pipeline_config option"

text \<open>\<open>['website', 'api', 'document'].includes(source.type)\<close> and
  \<open>typeof v === 'string'\<close>\<close>

definition known_type :: "jsval option \<Rightarrow> bool" where
  "known_type t \<longleftrightarrow> t = Some (JStr ''website'') \<or> t = Some (JStr ''api'') \<or> t = Some (JStr ''document'')"

definition is_string :: "jsval option \<Rightarrow> bool" where
  "is_string v = (case v of Some (JStr s) \<Rightarrow> True | _ \<Rightarrow> False)"

text \<open>
  The tenant check. \<open>tenant_get\<close> is the read of the tenant's configuration item: it raises, or
  returns whether the item exists.
\<close>

definition tenant_errors :: "(string \<Rightarrow> bool attempt) \<Rightarrow> string option \<Rightarrow> validation_error list" where
  "tenant_errors tenant_get tenantId =
     (if str_or tenantId [] = [] then [MissingTenantId]
      else (case tenant_get (str_or tenantId []) of
              Raised e \<Rightarrow> [TenantLookupError e]
            | Returned found \<Rightarrow> if \<not> found then [TenantNotFound (str_or tenantId [])] else []))"

text \<open>The body of \<open>event.dataSources.forEach\<close>.\<close>

definition source_errors :: "nat \<Rightarrow> data_source \<Rightarrow> validation_error list" where
  "source_errors index source =
     (if \<not> truthy (ds_type source) then [MissingType index]
      else if \<not> known_type (ds_type source) then [InvalidType index (ds_type source)]
      else [])
     @ (if \<not> truthy (ds_url source) then [MissingUrl index] else [])
     @ (if \<not> truthy (ds_name source) then [MissingName index] else [])"

text \<open>
  The \<open>forEach\<close> itself, from \<open>index\<close> on. Reading \<open>source.type\<close> of a \<open>null\<close> element throws a
  TypeError, which leaves the loop with the errors pushed so far.
\<close>

fun check_sources ::
  "nat \<Rightarrow> data_source option list \<Rightarrow> validation_error list \<Rightarrow>
   string \<times> validation_error list + validation_error list" where
  "check_sources index [] errs = Inr errs"
| "check_sources index (None # rest) errs = Inl (''TypeError'', errs)"
| "check_sources index (Some source # rest) errs =
     check_sources (index + 1) rest (errs @ source_errors index source)"

text \<open>The check of one numeric setting, made when the field is not \<open>undefined\<close>.\<close>

definition number_errors :: "int \<Rightarrow> int \<Rightarrow> validation_error \<Rightarrow> jsval option \<Rightarrow> validation_error list" where
  "number_errors lo hi err v =
     (case v of
        None \<Rightarrow> []
      | Some x \<Rightarrow>
          (case parseInt10 x of
             None \<Rightarrow> [err]
           | Some n \<Rightarrow> if n < lo \<or> n > hi then [err] else []))"

definition config_errors :: "pipeline_config option \<Rightarrow> validation_error list" where
  "config_errors config =
     (case config of
        None \<Rightarrow> [BadConfig]
      | Some c \<Rightarrow>
          number_errors 1 3 BadCrawlDepth (pc_crawlDepth c)
          @ number_errors 5 1440 BadMemoryDuration (pc_memoryDuration c)
          @ number_errors 1 20 BadMaxDocuments (pc_maxDocuments c)
          @ (if truthy (pc_embeddingModel c) \<and> \<not> is_string (pc_embeddingModel c)
             then [BadEmbeddingModel] else []))"

text \<open>The handler's \<open>try\<close> block.\<close>

definition validate_try ::
  "(string \<Rightarrow> bool attempt) \<Rightarrow> pipeline_event \<Rightarrow> string \<times> validation_error list + validation" where
  "validate_try tenant_get event =
     (let errors1 = tenant_errors tenant_get (pe_tenantId event)
      in case (case pe_dataSources event of
                 None \<Rightarrow> Inr (errors1 @ [BadDataSources])
               | Some [] \<Rightarrow> Inr (errors1 @ [BadDataSources])
               | Some (s # ss) \<Rightarrow> check_sources 0 (s # ss) errors1) of
           Inl thrown \<Rightarrow> Inl thrown
         | Inr errors2 \<Rightarrow>
             (let errors3 = errors2 @ config_errors (pe_config event)
              in Inr \<lparr>isValid = (errors3 = []), errors = errors3,
                       validatedTenantId = pe_tenantId event,
                       validatedDataSources =
                         (if errors3 = [] then (case pe_dataSources event of None \<Rightarrow> [] | Some l \<Rightarrow> l) else []),
                       validatedConfig = (if errors3 = [] then pe_config event else None)\<rparr>))"

text \<open>The handler: the \<open>catch\<close> reports the exception in front of the errors collected so far.\<close>

definition validate_input :: "(string \<Rightarrow> bool attempt) \<Rightarrow> pipeline_event \<Rightarrow> validation" where
  "validate_input tenant_get event =
     (case validate_try tenant_get event of
        Inl (message, errs) \<Rightarrow>
          \<lparr>isValid = False, errors = ValidationException message # errs,
           validatedTenantId = pe_tenantId event, validatedDataSources = [], validatedConfig = None\<rparr>
      | Inr result \<Rightarrow> result)"

text \<open>
  The rejection conditions as the specification lists them: the tenant id is missing or has no
  tenant record; the data sources are missing or empty; some data source lacks type, url or name,
  or has a type outside website, api, document; the configuration is missing; or a supplied
  crawl depth, memory duration or maximal number of documents is outside its range. "Lacks" is
  read as the code reads it (absent or falsy). The ranges are ranges of integers, and a setting
  is outside its range when it is a number \<open>JNum n\<close> whose integer is below the lower or above
  the upper bound. \<open>whole_settings\<close> are the events to which this reading applies: each of the
  three settings is absent or such a number. For a setting of any other kind (a string, a
  fraction, \<open>null\<close>) the specification's condition is not defined here, and
  \<open>supplied_outside\<close> is \<open>False\<close>.
\<close>

definition source_incomplete :: "data_source option \<Rightarrow> bool" where
  "source_incomplete src =
     (case src of
        None \<Rightarrow> True
      | Some s \<Rightarrow> \<not> truthy (ds_type s) \<or> \<not> truthy (ds_url s) \<or> \<not> truthy (ds_name s)
                  \<or> \<not> known_type (ds_type s))"








section \<open>The pipeline's state machine (Amazon States Language definition)\<close>

text \<open>
  The state machine is a table from state names to state definitions, read by an interpreter of
  the states language for the kinds of state the table uses (Task, Choice, Pass, Map).

  One invocation of a task's lambda succeeds or fails with an error name.
\<close>

datatype outcome = Succeeded | Failed string

text \<open>The entries of a task's \<open>Retry\<close> and \<open>Catch\<close> lists, and where a state leads
  (\<open>Next\<close> or \<open>End\<close>).\<close>

datatype retrier = Retrier (ErrorEquals: "string list") (IntervalSeconds: nat) (MaxAttempts: nat) (BackoffRate: nat)

datatype 's catcher = Catcher (CatchEquals: "string list") (CatchNext: 's)

datatype 's flow = Next 's | End

text \<open>The lambdas that the \<open>Resource\<close> fields name.\<close>

datatype lambda =
    ValidateInputFunction | ErrorHandlerFunction | CrawlWebsiteFunction | FetchFromApiFunction
  | ProcessDocumentFunction | ExtractTextFunction | GenerateEmbeddingsFunction
  | StoreEmbeddingsFunction | ConfigureMemoryFunction | UpdateMetadataFunction
  | ScheduleCrawlFunction | AnalyzeResultsFunction | NotifyCompletionFunction

text \<open>
  Whether an \<open>ErrorEquals\<close> list matches the error of a task; \<open>States.ALL\<close> matches every
  one of them.
\<close>

definition error_matches :: "string list \<Rightarrow> string \<Rightarrow> bool" where
  "error_matches names e \<longleftrightarrow> ''States.ALL'' \<in> set names \<or> e \<in> set names"

text \<open>
  The retriers with the number of retries each has used. On an error the first retrier that
  matches decides: it grants a retry while it has used fewer than \<open>MaxAttempts\<close>, and refuses
  otherwise; with no matching retrier there is no retry.
\<close>

fun next_retry :: "string \<Rightarrow> (retrier \<times> nat) list \<Rightarrow> (retrier \<times> nat) list option" where
  "next_retry e [] = None"
| "next_retry e ((r, used) # rs) =
     (if error_matches (ErrorEquals r) e
      then (if used < MaxAttempts r then Some ((r, Suc used) # rs) else None)
      else (case next_retry e rs of None \<Rightarrow> None | Some rs' \<Rightarrow> Some ((r, used) # rs')))"

definition retry_budget :: "(retrier \<times> nat) list \<Rightarrow> nat" where
  "retry_budget rs = sum_list (map (\<lambda>(r, used). MaxAttempts r - used) rs)"

lemma next_retry_budget: "next_retry e rs = Some rs' \<Longrightarrow> retry_budget rs' < retry_budget rs"
  by (induction e rs arbitrary: rs' rule: next_retry.induct)
     (auto simp: retry_budget_def split: if_splits option.splits)

text \<open>The invocations of a task: \<open>call k\<close> is the outcome of invocation number \<open>k\<close>.\<close>

function run_attempts :: "(nat \<Rightarrow> outcome) \<Rightarrow> (retrier \<times> nat) list \<Rightarrow> nat \<Rightarrow> outcome" where
  "run_attempts call rs attempt =
     (case call attempt of
        Succeeded \<Rightarrow> Succeeded
      | Failed e \<Rightarrow>
          (case next_retry e rs of
             None \<Rightarrow> Failed e
           | Some rs' \<Rightarrow> run_attempts call rs' (Suc attempt)))"
  by pat_completeness auto
termination
  by (relation "measure (\<lambda>(call, rs, attempt). retry_budget rs)") (auto simp: next_retry_budget)

declare run_attempts.simps [simp del]

text \<open>
  How a task ends: it proceeds along its \<open>Next\<close>, or its error (after the retries) is caught
  by the first matching catcher, or the error is not caught and fails the enclosing execution.
\<close>

datatype 's task_result = Proceed | Caught 's string | Uncaught string

fun first_catcher :: "string \<Rightarrow> 's catcher list \<Rightarrow> 's option" where
  "first_catcher e [] = None"
| "first_catcher e (c # cs) = (if error_matches (CatchEquals c) e then Some (CatchNext c) else first_catcher e cs)"

definition run_task :: "(nat \<Rightarrow> outcome) \<Rightarrow> retrier list \<Rightarrow> 's catcher list \<Rightarrow> 's task_result" where
  "run_task call retry catch =
     (case run_attempts call (map (\<lambda>r. (r, 0)) retry) 0 of
        Succeeded \<Rightarrow> Proceed
      | Failed e \<Rightarrow> (case first_catcher e catch of None \<Rightarrow> Uncaught e | Some target \<Rightarrow> Caught target e))"


text \<open>
  The error handler (error\_handler.js), which the error states invoke. Its three helpers
  (storing the error, publishing a notification, recording a metric) each catch and log what
  the service call raises; \<open>aws_calls\<close> gives the outcomes of those calls and the clock.
\<close>

record error_event =
  ee_error :: "string option"
  ee_message :: "string option"
  ee_tenantId :: "string option"

record handled =
  h_errorId :: "string \<times> nat"
  h_errorType :: string
  h_errorMessage :: string
  h_isRecoverable :: bool
  h_handlerError :: "string option"

record aws_calls =
  aws_put :: "unit attempt"
  aws_publish :: "unit attempt"
  aws_metric :: "unit attempt"
  aws_now :: nat

definition isCriticalError :: "string \<Rightarrow> bool" where
  "isCriticalError errorType \<longleftrightarrow>
     errorType \<in> set [''ValidationError'', ''AuthenticationError'', ''AuthorizationError'',
                       ''DependencyError'', ''ConfigurationError'', ''ResourceExhaustedError'']"

definition isRecoverableError :: "string \<Rightarrow> bool" where
  "isRecoverableError errorType \<longleftrightarrow>
     errorType \<in> set [''ThrottlingError'', ''TemporaryFailure'', ''NetworkError'', ''ServiceException'',
                       ''TooManyRequestsException'', ''ProvisionedThroughputExceededException'']"

text \<open>A helper's \<open>try\<close>/\<open>catch\<close> around its service call: it returns in both cases.\<close>

definition logged :: "unit attempt \<Rightarrow> string + unit" where
  "logged call = (case call of Raised e \<Rightarrow> Inr () | Returned u \<Rightarrow> Inr ())"

text \<open>The handler's \<open>try\<close> block, and the handler with its fallback result.\<close>

definition error_handler_try :: "aws_calls \<Rightarrow> error_event \<Rightarrow> string + handled" where
  "error_handler_try aws event =
     (let errorType = str_or (ee_error event) ''UnknownError'';
          errorMessage = str_or (ee_message event) ''An unknown error occurred'';
          errorId = (errorType, aws_now aws)
      in case logged (aws_put aws) of
           Inl e \<Rightarrow> Inl e
         | Inr u \<Rightarrow>
             (case (if isCriticalError errorType then logged (aws_publish aws) else Inr ()) of
                Inl e \<Rightarrow> Inl e
              | Inr u \<Rightarrow>
                  (case logged (aws_metric aws) of
                     Inl e \<Rightarrow> Inl e
                   | Inr u \<Rightarrow>
                       Inr \<lparr>h_errorId = errorId, h_errorType = errorType, h_errorMessage = errorMessage,
                            h_isRecoverable = isRecoverableError errorType, h_handlerError = None\<rparr>)))"

definition error_handler :: "aws_calls \<Rightarrow> error_event \<Rightarrow> handled" where
  "error_handler aws event =
     (case error_handler_try aws event of
        Inl handlerError \<Rightarrow>
          \<lparr>h_errorId = (''fallback'', aws_now aws),
           h_errorType = str_or (ee_error event) ''UnknownError'',
           h_errorMessage = str_or (ee_message event) ''An unknown error occurred'',
           h_isRecoverable = False, h_handlerError = Some handlerError\<rparr>
      | Inr result \<Rightarrow> result)"

text \<open>The states of the Map iterator and of the top level.\<close>

datatype iter_state =
    DetermineSourceType | CrawlWebsite | FetchFromApi | ProcessDocument
  | CrawlError | ApiError | DocumentError | InvalidSourceType
  | ExtractText | ExtractError | GenerateEmbeddings | EmbeddingError
  | StoreEmbeddings | StorageError | SourceProcessingSucceeded | SourceProcessingFailed

datatype top_state =
    ValidateInput | CheckValidationResult | ValidationError | ProcessDataSources
  | ConfigureMemoryDuration | MemoryConfigError | UpdateMetadata | MetadataError
  | ScheduleNextCrawl | ScheduleError | AnalyzeResults | NotifyCompletion

text \<open>
  A state definition. A task has its lambda, the \<open>error\<close> and \<open>message\<close> of its
  \<open>Parameters\<close> when it is an error state, its retriers, its catchers and where it leads. The
  two choices of the table test \<open>$.dataSource.type\<close> against strings and
  \<open>$.validation.isValid\<close> against \<open>true\<close>. A pass state sets \<open>$.processingStatus.status\<close>.
  The map state names the start state of its iterator.
\<close>

datatype 's state_def =
    Task lambda "(string \<times> string) option" "retrier list" "'s catcher list" "'s flow"
  | ChoiceSourceType "(string \<times> 's) list" 's
  | ChoiceIsValid 's 's
  | Pass string "'s flow"
  | MapState iter_state "'s flow"

text \<open>The iterator of \<open>ProcessDataSources\<close>, state by state.\<close>

fun iterator :: "iter_state \<Rightarrow> iter_state state_def" where
  "iterator DetermineSourceType =
     ChoiceSourceType [(''website'', CrawlWebsite), (''api'', FetchFromApi), (''document'', ProcessDocument)]
       InvalidSourceType"
| "iterator CrawlWebsite =
     Task CrawlWebsiteFunction None
       [Retrier [''ServiceException'', ''TooManyRequestsException''] 2 3 2]
       [Catcher [''States.ALL''] CrawlError] (Next ExtractText)"
| "iterator FetchFromApi =
     Task FetchFromApiFunction None
       [Retrier [''ServiceException'', ''TooManyRequestsException''] 2 3 2]
       [Catcher [''States.ALL''] ApiError] (Next ExtractText)"
| "iterator ProcessDocument =
     Task ProcessDocumentFunction None
       [Retrier [''ServiceException''] 2 3 2]
       [Catcher [''States.ALL''] DocumentError] (Next ExtractText)"
| "iterator CrawlError =
     Task ErrorHandlerFunction (Some (''CrawlError'', ''Failed to crawl website'')) [] []
       (Next SourceProcessingFailed)"
| "iterator ApiError =
     Task ErrorHandlerFunction (Some (''ApiError'', ''Failed to fetch from API'')) [] []
       (Next SourceProcessingFailed)"
| "iterator DocumentError =
     Task ErrorHandlerFunction (Some (''DocumentError'', ''Failed to process document'')) [] []
       (Next SourceProcessingFailed)"
| "iterator InvalidSourceType =
     Task ErrorHandlerFunction (Some (''InvalidSourceType'', ''Unknown data source type'')) [] []
       (Next SourceProcessingFailed)"
| "iterator ExtractText =
     Task ExtractTextFunction None
       [Retrier [''ServiceException''] 2 3 2]
       [Catcher [''States.ALL''] ExtractError] (Next GenerateEmbeddings)"
| "iterator ExtractError =
     Task ErrorHandlerFunction (Some (''ExtractError'', ''Failed to extract text'')) [] []
       (Next SourceProcessingFailed)"
| "iterator GenerateEmbeddings =
     Task GenerateEmbeddingsFunction None
       [Retrier [''ServiceException''] 2 3 2]
       [Catcher [''States.ALL''] EmbeddingError] (Next StoreEmbeddings)"
| "iterator EmbeddingError =
     Task ErrorHandlerFunction (Some (''EmbeddingError'', ''Failed to generate embeddings'')) [] []
       (Next SourceProcessingFailed)"
| "iterator StoreEmbeddings =
     Task StoreEmbeddingsFunction None
       [Retrier [''ServiceException''] 2 3 2]
       [Catcher [''States.ALL''] StorageError] (Next SourceProcessingSucceeded)"
| "iterator StorageError =
     Task ErrorHandlerFunction (Some (''StorageError'', ''Failed to store embeddings'')) [] []
       (Next SourceProcessingFailed)"
| "iterator SourceProcessingSucceeded = Pass ''succeeded'' End"
| "iterator SourceProcessingFailed = Pass ''failed'' End"

text \<open>The top level, state by state.\<close>

fun pipeline :: "top_state \<Rightarrow> top_state state_def" where
  "pipeline ValidateInput = Task ValidateInputFunction None [] [] (Next CheckValidationResult)"
| "pipeline CheckValidationResult = ChoiceIsValid ProcessDataSources ValidationError"
| "pipeline ValidationError =
     Task ErrorHandlerFunction (Some (''ValidationError'', ''Invalid input provided for RAG pipeline''))
       [] [] End"
| "pipeline ProcessDataSources = MapState DetermineSourceType (Next ConfigureMemoryDuration)"
| "pipeline ConfigureMemoryDuration =
     Task ConfigureMemoryFunction None
       [Retrier [''ServiceException''] 2 3 2]
       [Catcher [''States.ALL''] MemoryConfigError] (Next UpdateMetadata)"
| "pipeline MemoryConfigError =
     Task ErrorHandlerFunction (Some (''MemoryConfigError'', ''Failed to configure memory duration''))
       [] [] (Next UpdateMetadata)"
| "pipeline UpdateMetadata =
     Task UpdateMetadataFunction None
       [Retrier [''ServiceException''] 2 3 2]
       [Catcher [''States.ALL''] MetadataError] (Next ScheduleNextCrawl)"
| "pipeline MetadataError =
     Task ErrorHandlerFunction (Some (''MetadataError'', ''Failed to update metadata''))
       [] [] (Next ScheduleNextCrawl)"
| "pipeline ScheduleNextCrawl =
     Task ScheduleCrawlFunction None
       [Retrier [''ServiceException''] 2 3 2]
       [Catcher [''States.ALL''] ScheduleError] (Next AnalyzeResults)"
| "pipeline ScheduleError =
     Task ErrorHandlerFunction (Some (''ScheduleError'', ''Failed to schedule next crawl''))
       [] [] (Next AnalyzeResults)"
| "pipeline AnalyzeResults = Task AnalyzeResultsFunction None [] [] (Next NotifyCompletion)"
| "pipeline NotifyCompletion = Task NotifyCompletionFunction None [] [] End"

text \<open>
  What the tasks of one execution (the top level, or one iteration of the map) meet: the outcome
  of each invocation of a state's lambda, and the service calls the error handler makes. The
  lambdas of the stages and of the tenant-level steps are arbitrary; the error handler and the
  input validation are the functions modelled above, which return for every input.
\<close>

record 's task_env =
  lambda_call :: "'s \<Rightarrow> nat \<Rightarrow> outcome"
  handler_aws :: "'s \<Rightarrow> aws_calls"

text \<open>The data of one iteration that the claims are about: the states entered, the caught
  error (\<open>$.error\<close>), the handler's result and the processing status.\<close>

record branch =
  b_trace :: "iter_state list"
  b_error :: "string option"
  b_errorHandled :: "handled option"
  b_status :: "string option"

datatype 's step = Goto 's | Stop | Abort string

definition follow :: "'s flow \<Rightarrow> 's step" where
  "follow f = (case f of Next s \<Rightarrow> Goto s | End \<Rightarrow> Stop)"

text \<open>
  One state of the iterator. A choice whose variable is absent fails the execution with
  \<open>States.Runtime\<close>, which no catcher catches.
\<close>

definition iter_step ::
  "iter_state task_env \<Rightarrow> data_source option \<Rightarrow> iter_state \<Rightarrow> branch \<Rightarrow> branch \<times> iter_state step" where
  "iter_step env item s br =
     (case iterator s of
        ChoiceSourceType rules fallback \<Rightarrow>
          (case item of
             None \<Rightarrow> (br, Abort ''States.Runtime'')
           | Some source \<Rightarrow>
               (case ds_type source of
                  None \<Rightarrow> (br, Abort ''States.Runtime'')
                | Some (JStr t) \<Rightarrow>
                    (br, Goto (case map_of rules t of None \<Rightarrow> fallback | Some target \<Rightarrow> target))
                | Some other \<Rightarrow> (br, Goto fallback)))
      | Task fn parameters retry catch flow \<Rightarrow>
          (case parameters of
             Some (error, message) \<Rightarrow>
               (br\<lparr>b_errorHandled :=
                     Some (error_handler (handler_aws env s)
                             \<lparr>ee_error = Some error, ee_message = Some message, ee_tenantId = None\<rparr>)\<rparr>,
                follow flow)
           | None \<Rightarrow>
               (case run_task (lambda_call env s) retry catch of
                  Proceed \<Rightarrow> (br, follow flow)
                | Caught target e \<Rightarrow> (br\<lparr>b_error := Some e\<rparr>, Goto target)
                | Uncaught e \<Rightarrow> (br, Abort e)))
      | Pass status flow \<Rightarrow> (br\<lparr>b_status := Some status\<rparr>, follow flow)
      | ChoiceIsValid yes no \<Rightarrow> (br, Abort ''States.Runtime'')
      | MapState start flow \<Rightarrow> (br, Abort ''States.Runtime''))"

datatype 'a exec = Done 'a | Aborted string | OutOfFuel

text \<open>
  The iterator from a state on. The fuel bounds the number of states entered; the iterator has
  16 states and the top level 12, and the runs below are shown to end within that.
\<close>

fun run_iter ::
  "nat \<Rightarrow> iter_state task_env \<Rightarrow> data_source option \<Rightarrow> iter_state \<Rightarrow> branch \<Rightarrow> branch exec" where
  "run_iter 0 env item s br = OutOfFuel"
| "run_iter (Suc fuel) env item s br =
     (case iter_step env item s (br\<lparr>b_trace := b_trace br @ [s]\<rparr>) of
        (br', Goto s') \<Rightarrow> run_iter fuel env item s' br'
      | (br', Stop) \<Rightarrow> Done br'
      | (br', Abort e) \<Rightarrow> Aborted e)"

definition run_branch :: "iter_state task_env \<Rightarrow> data_source option \<Rightarrow> branch exec" where
  "run_branch env item =
     run_iter 16 env item DetermineSourceType
       \<lparr>b_trace = [], b_error = None, b_errorHandled = None, b_status = None\<rparr>"

text \<open>
  The map state: one iteration per item, each with its own environment. The iterations share
  nothing; an iteration that fails fails the map.
\<close>

fun run_map :: "(nat \<Rightarrow> iter_state task_env) \<Rightarrow> nat \<Rightarrow> data_source option list \<Rightarrow> branch list exec" where
  "run_map envs index [] = Done []"
| "run_map envs index (item # items) =
     (case run_branch (envs index) item of
        Done br \<Rightarrow>
          (case run_map envs (Suc index) items of
             Done brs \<Rightarrow> Done (br # brs)
           | Aborted e \<Rightarrow> Aborted e
           | OutOfFuel \<Rightarrow> OutOfFuel)
      | Aborted e \<Rightarrow> Aborted e
      | OutOfFuel \<Rightarrow> OutOfFuel)"

text \<open>The data of the top level, and its environment.\<close>

record run =
  r_trace :: "top_state list"
  r_validation :: "validation option"
  r_processedDataSources :: "branch list option"
  r_error :: "string option"
  r_errorHandled :: "handled option"

record pipeline_env =
  tenant_lookup :: "string \<Rightarrow> bool attempt"
  branch_env :: "nat \<Rightarrow> iter_state task_env"
  top_env :: "top_state task_env"

definition top_step :: "pipeline_env \<Rightarrow> pipeline_event \<Rightarrow> top_state \<Rightarrow> run \<Rightarrow> run \<times> top_state step" where
  "top_step env event s r =
     (case pipeline s of
        Task fn parameters retry catch flow \<Rightarrow>
          (case parameters of
             Some (error, message) \<Rightarrow>
               (r\<lparr>r_errorHandled :=
                    Some (error_handler (handler_aws (top_env env) s)
                            \<lparr>ee_error = Some error, ee_message = Some message, ee_tenantId = None\<rparr>)\<rparr>,
                follow flow)
           | None \<Rightarrow>
               if fn = ValidateInputFunction
               then (r\<lparr>r_validation := Some (validate_input (tenant_lookup env) event)\<rparr>, follow flow)
               else (case run_task (lambda_call (top_env env) s) retry catch of
                       Proceed \<Rightarrow> (r, follow flow)
                     | Caught target e \<Rightarrow> (r\<lparr>r_error := Some e\<rparr>, Goto target)
                     | Uncaught e \<Rightarrow> (r, Abort e)))
      | ChoiceIsValid yes no \<Rightarrow>
          (case r_validation r of
             None \<Rightarrow> (r, Abort ''States.Runtime'')
           | Some v \<Rightarrow> (r, Goto (if isValid v then yes else no)))
      | MapState start flow \<Rightarrow>
          (case pe_dataSources event of
             None \<Rightarrow> (r, Abort ''States.Runtime'')
           | Some items \<Rightarrow>
               (case run_map (branch_env env) 0 items of
                  Done branches \<Rightarrow> (r\<lparr>r_processedDataSources := Some branches\<rparr>, follow flow)
                | Aborted e \<Rightarrow> (r, Abort e)
                | OutOfFuel \<Rightarrow> (r, Abort ''OutOfFuel'')))
      | ChoiceSourceType rules fallback \<Rightarrow> (r, Abort ''States.Runtime'')
      | Pass status flow \<Rightarrow> (r, follow flow))"

text \<open>How an execution ends.\<close>

datatype run_end = Ended | Failed_with string | Unfinished

fun run_top :: "nat \<Rightarrow> pipeline_env \<Rightarrow> pipeline_event \<Rightarrow> top_state \<Rightarrow> run \<Rightarrow> run \<times> run_end" where
  "run_top 0 env event s r = (r, Unfinished)"
| "run_top (Suc fuel) env event s r =
     (case top_step env event s (r\<lparr>r_trace := r_trace r @ [s]\<rparr>) of
        (r', Goto s') \<Rightarrow> run_top fuel env event s' r'
      | (r', Stop) \<Rightarrow> (r', Ended)
      | (r', Abort e) \<Rightarrow> (r', Failed_with e))"

definition start_execution :: "pipeline_env \<Rightarrow> pipeline_event \<Rightarrow> run \<times> run_end" where
  "start_execution env event =
     run_top 12 env event ValidateInput
       \<lparr>r_trace = [], r_validation = None, r_processedDataSources = None, r_error = None,
        r_errorHandled = None\<rparr>"

text \<open>
  The result of a stage task of the iterator and of a task of the top level in an environment:
  what \<open>run_task\<close> gives for the state's lambda, retriers and catchers.
\<close>

definition stage_result :: "iter_state task_env \<Rightarrow> iter_state \<Rightarrow> iter_state task_result" where
  "stage_result env s =
     (case iterator s of
        Task fn parameters retry catch flow \<Rightarrow> run_task (lambda_call env s) retry catch
      | _ \<Rightarrow> Proceed)"

definition top_result :: "pipeline_env \<Rightarrow> top_state \<Rightarrow> top_state task_result" where
  "top_result env s =
     (case pipeline s of
        Task fn parameters retry catch flow \<Rightarrow> run_task (lambda_call (top_env env) s) retry catch
      | _ \<Rightarrow> Proceed)"

text \<open>The stage tasks on the path of a data source of a known type, in order.\<close>

definition fetch_state :: "string \<Rightarrow> iter_state" where
  "fetch_state t =
     (if t = ''website'' then CrawlWebsite else if t = ''api'' then FetchFromApi
      else if t = ''document'' then ProcessDocument else InvalidSourceType)"

definition known_source :: "data_source option \<Rightarrow> bool" where
  "known_source item =
     (case item of None \<Rightarrow> False | Some source \<Rightarrow> known_type (ds_type source))"

definition branch_stages :: "data_source option \<Rightarrow> iter_state list" where
  "branch_stages item =
     (case item of
        None \<Rightarrow> []
      | Some source \<Rightarrow>
          (case ds_type source of
             Some (JStr t) \<Rightarrow>
               if known_type (ds_type source)
               then [fetch_state t, ExtractText, GenerateEmbeddings, StoreEmbeddings] else []
           | _ \<Rightarrow> []))"

text \<open>
  The states the run enters after the map, given the results of the tenant-level tasks: each of
  the first three steps is followed by its error state when its task fails; \<open>NotifyCompletion\<close>
  is entered when the \<open>AnalyzeResults\<close> task succeeds. And how the run then ends.
\<close>

definition tenant_steps :: "pipeline_env \<Rightarrow> top_state list" where
  "tenant_steps env =
     [ConfigureMemoryDuration]
     @ (if top_result env ConfigureMemoryDuration = Proceed then [] else [MemoryConfigError])
     @ [UpdateMetadata]
     @ (if top_result env UpdateMetadata = Proceed then [] else [MetadataError])
     @ [ScheduleNextCrawl]
     @ (if top_result env ScheduleNextCrawl = Proceed then [] else [ScheduleError])
     @ [AnalyzeResults]
     @ (if top_result env AnalyzeResults = Proceed then [NotifyCompletion] else [])"

definition tenant_steps_end :: "pipeline_env \<Rightarrow> run_end" where
  "tenant_steps_end env =
     (case top_result env AnalyzeResults of
        Proceed \<Rightarrow>
          (case top_result env NotifyCompletion of
             Proceed \<Rightarrow> Ended
           | Caught t e \<Rightarrow> Failed_with e
           | Uncaught e \<Rightarrow> Failed_with e)
      | Caught t e \<Rightarrow> Failed_with e
      | Uncaught e \<Rightarrow> Failed_with e)"

definition same_data :: "run \<Rightarrow> run \<Rightarrow> bool" where
  "same_data r r' \<longleftrightarrow>
     r_validation r' = r_validation r \<and> r_processedDataSources r' = r_processedDataSources r"



section \<open>Properties of the chunker\<close>

lemma hard_split_empty: "hard_split m [] chunks = Some chunks"
  by (simp add: hard_split.simps)

text \<open>
  C3 (every chunk is at most \<open>maxChunkSize\<close> long) fails on the code: a sentence of an over-long
  paragraph is admitted by its untrimmed length plus one, and then stored with a full stop
  appended, so a sentence of exactly \<open>maxChunkSize\<close> characters becomes a chunk of
  \<open>maxChunkSize + 1\<close>. With the limit 5 the text \<open>abcde.fgh\<close> yields a first chunk of six characters.
\<close>

theorem splitTextIntoChunks_exceeds_limit:
  "splitTextIntoChunks ''abcde.fgh'' 5 = Some [''abcde.'', ''fgh.''] \<and> length ''abcde.'' > (5::nat)"
  by (simp add: splitTextIntoChunks_def add_paragraph_def add_sentence_def js_split_def
      js_trim_def is_newline_def is_sentence_end_def is_space_def)

text \<open>
  C4 (no chunk is empty) fails on the code: the paragraph branch pushes \<open>currentChunk\<close> without
  the emptiness test that the sentence branch and the final push make. A first paragraph of
  exactly \<open>maxChunkSize\<close> characters does not fit beside the empty current chunk (its length plus
  one exceeds the limit), so the empty current chunk is pushed.
\<close>

theorem splitTextIntoChunks_empty_chunk:
  "splitTextIntoChunks ''abcde'' 5 = Some ['''', ''abcde'']"
  by (simp add: splitTextIntoChunks_def add_paragraph_def js_split_def js_trim_def
      is_newline_def is_space_def)


section \<open>Properties of the text normaliser\<close>

lemma replace_runs_drops:
  "P x \<Longrightarrow> x \<notin> set rep \<Longrightarrow> n \<le> 1 \<Longrightarrow> x \<notin> set (replace_runs P n rep s)"
  by (induction P n rep s rule: replace_runs.induct) auto

lemma replace_spaces_no_newline: "nl \<notin> set (replace_runs is_space 1 '' '' s)"
  by (rule replace_runs_drops) (simp_all add: is_space_def)

lemma replace_runs_none: "\<forall>c \<in> set s. \<not> P c \<Longrightarrow> replace_runs P n rep s = s"
  by (induction s) auto

text \<open>
  C5 fails on the code: the replacement of \<open>\s+\<close> by one space runs first and line feeds are
  white space, so no line feed is left for the replacement of three or more line feeds to see.
  Three line feeds between two paragraphs become one space; the paragraph break is lost.
\<close>

theorem cleanText_paragraph_break_lost:
  "cleanText html_text (\<lambda>s. s) (''a'' @ [nl, nl, nl] @ ''b'') = ''a b''"
  by (simp add: cleanText_def js_trim_def is_space_def is_newline_def)

lemma cleanText_newline_step_idle:
  "replace_runs is_newline 3 [nl, nl] (replace_runs is_space 1 '' '' s) = replace_runs is_space 1 '' '' s"
  by (rule replace_runs_none) (use replace_spaces_no_newline in \<open>auto simp: is_newline_def\<close>)

section \<open>Properties of the retrieval engine\<close>

lemma fold_add_hit:
  "fold add_hit hits (rc, ss) =
     (rc @ concat (map (\<lambda>h. hit_text h @ [nl, nl]) (filter (\<lambda>h. hit_score h > 1/2) hits)),
      ss @ map citation (filter (\<lambda>h. hit_score h > 1/2) hits))"
  by (induction hits arbitrary: rc ss) (simp_all add: add_hit_def)

text \<open>
  C7, as the code has it: when the embedding call and the index request succeed, the context is
  the concatenation, in the order of the hits, of the texts of exactly the hits whose score is
  strictly above 0.5 (each followed by two line feeds), and the sources are the citations of
  exactly those hits. A hit whose score is 0.5 or less is in neither.
\<close>

theorem searchRelevantContent_threshold:
  assumes "embed_call query tenantId = Returned (Some v)"
    and "index_call (tenantId @ ''-vectors'') v maxDocuments = Returned hits"
  shows "searchRelevantContent embed_call index_call tenantId query history maxDocuments =
     (concat (map (\<lambda>h. hit_text h @ [nl, nl]) (filter (\<lambda>h. hit_score h > 1/2) hits)),
      map citation (filter (\<lambda>h. hit_score h > 1/2) hits))"
  using assms by (simp add: searchRelevantContent_def search_try_def fold_add_hit)

text \<open>The scenario of the specification: of two hits with scores 0.9 and 0.3 only the first
  is in the context and in the sources.\<close>

theorem searchRelevantContent_threshold_witness:
  "searchRelevantContent (\<lambda>q t. Returned (Some [1, 0]))
     (\<lambda>i v k. Returned
        [\<lparr>hit_score = 0.9, hit_text = ''Refunds within 30 days.'',
          hit_url = ''https://example.com/refunds'', hit_name = ''Docs''\<rparr>,
         \<lparr>hit_score = 0.3, hit_text = ''Our office dog.'',
          hit_url = ''https://example.com/dog'', hit_name = ''Docs''\<rparr>])
     ''tenant1'' ''What is the refund policy?'' [] 5 =
   (''Refunds within 30 days.'' @ [nl, nl],
    [\<lparr>src_text = ''Refunds within 30 days.'', src_url = ''https://example.com/refunds'',
      src_score = 0.9, src_name = ''Docs''\<rparr>])"
  using searchRelevantContent_threshold
    [of "\<lambda>q t. Returned (Some [1, 0])" "''What is the refund policy?''" "''tenant1''" "[1, 0]"
      "\<lambda>i v k. Returned
        [\<lparr>hit_score = 0.9, hit_text = ''Refunds within 30 days.'',
          hit_url = ''https://example.com/refunds'', hit_name = ''Docs''\<rparr>,
         \<lparr>hit_score = 0.3, hit_text = ''Our office dog.'',
          hit_url = ''https://example.com/dog'', hit_name = ''Docs''\<rparr>]" 5 _ "[]"]
  by (simp add: citation_def)

text \<open>
  C7 as stated includes every hit whose score is not below 0.5. The code's test is
  \<open>score > 0.5\<close>: a hit whose score is exactly 0.5 is not below the threshold and is left out.
\<close>

theorem searchRelevantContent_threshold_counterexample:
  "\<not> (hit_score \<lparr>hit_score = 0.5, hit_text = ''Refunds within 30 days.'',
                  hit_url = ''https://example.com/refunds'', hit_name = ''Docs''\<rparr> < 0.5) \<and>
   searchRelevantContent (\<lambda>q t. Returned (Some [1, 0]))
     (\<lambda>i v k. Returned
        [\<lparr>hit_score = 0.5, hit_text = ''Refunds within 30 days.'',
          hit_url = ''https://example.com/refunds'', hit_name = ''Docs''\<rparr>])
     ''tenant1'' ''What is the refund policy?'' [] 5 = ([], [])"
  by (simp add: searchRelevantContent_def search_try_def add_hit_def)

lemma generateResponse_apology:
  "generation_fails call (inference_payload prompt config) \<Longrightarrow>
   generateResponse call prompt config = apology"
  by (auto simp: generation_fails_def generateResponse_def generate_try_def split: attempt.splits)

lemma searchRelevantContent_failed:
  "search_fails embed_call index_call tenantId query maxDocuments \<Longrightarrow>
   searchRelevantContent embed_call index_call tenantId query history maxDocuments = ([], [])"
  by (auto simp: search_fails_def searchRelevantContent_def search_try_def
      split: attempt.splits option.splits)

lemma trim_apology: "js_trim apology = apology"
  by (simp add: js_trim_def apology_def is_space_def)

lemma handler_generation_failure:
  assumes "\<And>req. generation_fails (invoke_inference env) req"
  shows "handler env w ev =
         handler (env\<lparr>invoke_inference :=
                        \<lambda>req. Returned \<lparr>inf_error = None, inf_response = Some apology\<rparr>\<rparr>) w ev"
proof -
  let ?env' = "env\<lparr>invoke_inference := \<lambda>req. Returned \<lparr>inf_error = None, inf_response = Some apology\<rparr>\<rparr>"
  have a: "generateResponse (invoke_inference env) p c = apology" for p c
    using assms by (simp add: generateResponse_apology)
  have b: "generateResponse (\<lambda>req. Returned \<lparr>inf_error = None, inf_response = Some apology\<rparr>) p c
           = apology" for p c
    by (simp add: generateResponse_def generate_try_def str_or_def trim_apology)
  have c: "answer_try ?env' w t c s q cfg = answer_try env w t c s q cfg" for t c s q cfg
    by (simp add: answer_try_def a b Let_def split: option.splits)
  have "handler_try ?env' w ev = handler_try env w ev"
    by (simp add: handler_try_def getChatbotConfig_def c Let_def split: attempt.splits option.splits)
  then show ?thesis
    by (simp add: handler_def)
qed

text \<open>
  C8: whenever the generation step fails, \<open>generateResponse\<close> returns the apology; whenever the
  similarity search fails, \<open>searchRelevantContent\<close> returns the empty context and no sources;
  neither raises. For the caller of the handler a failing generation step is the same as an
  inference lambda that answers with the apology: the response and the stores are equal.
\<close>

theorem retrieval_failures_absorbed:
  "(generation_fails call (inference_payload prompt config) \<longrightarrow>
      generateResponse call prompt config = apology) \<and>
   (search_fails embed_call index_call tenantId query maxDocuments \<longrightarrow>
      searchRelevantContent embed_call index_call tenantId query history maxDocuments = ([], [])) \<and>
   ((\<forall>req. generation_fails (invoke_inference env) req) \<longrightarrow>
      handler env w ev =
      handler (env\<lparr>invoke_inference :=
                     \<lambda>req. Returned \<lparr>inf_error = None, inf_response = Some apology\<rparr>\<rparr>) w ev)"
  using generateResponse_apology searchRelevantContent_failed handler_generation_failure
  by blast

text \<open>An inference lambda that times out and an embedding lambda that returns no embedding:
  the caller still gets status 200, with the apology and no sources.\<close>

theorem retrieval_failures_absorbed_witness:
  "generation_fails (\<lambda>req. Raised ''Task timed out'')
     (inference_payload ''Human: hi'' \<lparr>cfg_model = None, cfg_memoryDuration = None, cfg_maxDocuments = None\<rparr>) \<and>
   generateResponse (\<lambda>req. Raised ''Task timed out'') ''Human: hi''
     \<lparr>cfg_model = None, cfg_memoryDuration = None, cfg_maxDocuments = None\<rparr> = apology \<and>
   search_fails (\<lambda>q t. Returned None) (\<lambda>i v k. Returned []) ''tenant1'' ''hi'' 5 \<and>
   searchRelevantContent (\<lambda>q t. Returned None) (\<lambda>i v k. Returned []) ''tenant1'' ''hi'' [] 5 = ([], []) \<and>
   (\<forall>req. generation_fails (\<lambda>req. Raised ''Task timed out'') req) \<and>
   snd (handler
     \<lparr>dynamo_get_config = \<lambda>c t. Returned
        (Some \<lparr>cfg_model = None, cfg_memoryDuration = None, cfg_maxDocuments = None\<rparr>),
      redis_fault = \<lambda>op. None,
      invoke_embedding = \<lambda>q t. Returned None,
      opensearch_request = \<lambda>i v k. Returned [],
      invoke_inference = \<lambda>req. Raised ''Task timed out'',
      dynamo_put = \<lambda>i. Returned (),
      uuid_session = ''s-1'', uuid_query = ''q-1'', date_now = 0,
      iso_now = ''2024-05-01T10:00:00.000Z''\<rparr>
     \<lparr>w_history = \<lambda>k. [], w_expire = \<lambda>k. None, w_queries = []\<rparr>
     \<lparr>ev_body = Returned \<lparr>b_query = Some ''hi'', b_sessionId = None\<rparr>,
      ev_chatbotId = Some ''bot1'', ev_tenantId = Returned (Some ''tenant1'')\<rparr>)
   = Ok200 apology ''s-1'' []"
  using retrieval_failures_absorbed
    [where call = "\<lambda>req. Raised ''Task timed out''" and prompt = "''Human: hi''"
      and config = "\<lparr>cfg_model = None, cfg_memoryDuration = None, cfg_maxDocuments = None\<rparr>"
      and embed_call = "\<lambda>q t. Returned None" and index_call = "\<lambda>i v k. Returned []"
      and tenantId = "''tenant1''" and query = "''hi''" and maxDocuments = 5 and history = "[]"
      and env = "\<lparr>dynamo_get_config = \<lambda>c t. Returned
                    (Some \<lparr>cfg_model = None, cfg_memoryDuration = None, cfg_maxDocuments = None\<rparr>),
                  redis_fault = \<lambda>op. None,
                  invoke_embedding = \<lambda>q t. Returned None,
                  opensearch_request = \<lambda>i v k. Returned [],
                  invoke_inference = \<lambda>req. Raised ''Task timed out'',
                  dynamo_put = \<lambda>i. Returned (),
                  uuid_session = ''s-1'', uuid_query = ''q-1'', date_now = 0,
                  iso_now = ''2024-05-01T10:00:00.000Z''\<rparr>"
      and w = "\<lparr>w_history = \<lambda>k. [], w_expire = \<lambda>k. None, w_queries = []\<rparr>"
      and ev = "\<lparr>ev_body = Returned \<lparr>b_query = Some ''hi'', b_sessionId = None\<rparr>,
                 ev_chatbotId = Some ''bot1'', ev_tenantId = Returned (Some ''tenant1'')\<rparr>"]
  by (simp add: generation_fails_def search_fails_def handler_def handler_try_def
      getChatbotConfig_def answer_try_def str_or_def nat_or_def generateResponse_def
      generate_try_def trim_apology Let_def)

lemma handler_put_independent:
  "snd (handler (env\<lparr>dynamo_put := p\<rparr>) w ev) = snd (handler env w ev)"
  by (auto simp: handler_def handler_try_def getChatbotConfig_def answer_try_def Let_def
      split: attempt.splits option.splits prod.splits sum.splits)

text \<open>
  C9, as the code has it: the item that \<open>recordQuery\<close> puts holds the full text of the query
  and the length of the response. When the put succeeds the item is appended to the table; when
  the put raises, \<open>recordQuery\<close> returns with the table unchanged; and the handler's response
  does not depend on what the put does.
\<close>

theorem recordQuery_item_and_isolation:
  "qi_query (query_record ts qid tenantId chatbotId sessionId query response) = query \<and>
   qi_responseLength (query_record ts qid tenantId chatbotId sessionId query response) = length response \<and>
   (put (query_record ts qid tenantId chatbotId sessionId query response) = Returned () \<longrightarrow>
      recordQuery put ts qid queries tenantId chatbotId sessionId query response =
      queries @ [query_record ts qid tenantId chatbotId sessionId query response]) \<and>
   (\<forall>e. put (query_record ts qid tenantId chatbotId sessionId query response) = Raised e \<longrightarrow>
      recordQuery put ts qid queries tenantId chatbotId sessionId query response = queries) \<and>
   snd (handler (env\<lparr>dynamo_put := put\<rparr>) w ev) = snd (handler env w ev)"
  by (simp add: query_record_def recordQuery_def recordQuery_try_def handler_put_independent)

theorem recordQuery_item_and_isolation_witness:
  "recordQuery (\<lambda>i. Raised ''ProvisionedThroughputExceededException'') ''2024-05-01T10:00:00.000Z''
     ''q-1'' [] ''tenant1'' ''bot1'' ''s-1'' ''What is the refund policy?'' ''Within 30 days.'' = [] \<and>
   recordQuery (\<lambda>i. Returned ()) ''2024-05-01T10:00:00.000Z''
     ''q-1'' [] ''tenant1'' ''bot1'' ''s-1'' ''What is the refund policy?'' ''Within 30 days.'' =
     [query_record ''2024-05-01T10:00:00.000Z'' ''q-1'' ''tenant1'' ''bot1'' ''s-1''
        ''What is the refund policy?'' ''Within 30 days.'']"
  using recordQuery_item_and_isolation
    [of "''2024-05-01T10:00:00.000Z''" "''q-1''" "''tenant1''" "''bot1''" "''s-1''"
      "''What is the refund policy?''" "''Within 30 days.''"
      "\<lambda>i. Raised ''ProvisionedThroughputExceededException''" "[]"]
    recordQuery_item_and_isolation
    [of "''2024-05-01T10:00:00.000Z''" "''q-1''" "''tenant1''" "''bot1''" "''s-1''"
      "''What is the refund policy?''" "''Within 30 days.''" "\<lambda>i. Returned ()" "[]"]
  by simp

text \<open>
  C9 as stated has the record store the length of the query instead of its content. The item
  has no such field: its \<open>query\<close> field is the query itself, and the only length stored is the
  response's.
\<close>

theorem recordQuery_stores_query_counterexample:
  "recordQuery (\<lambda>i. Returned ()) ''2024-05-01T10:00:00.000Z'' ''q-1'' [] ''tenant1'' ''bot1'' ''s-1''
     ''What is the refund policy?'' ''Within 30 days.'' =
   [\<lparr>qi_id = ''q-1'', qi_tenantId = ''tenant1'', qi_chatbotId = ''bot1'', qi_sessionId = ''s-1'',
     qi_query = ''What is the refund policy?'', qi_responseLength = 15,
     qi_timestamp = ''2024-05-01T10:00:00.000Z'', qi_date = ''2024-05-01''\<rparr>]"
  by (simp add: recordQuery_def recordQuery_try_def query_record_def)

section \<open>Properties of the crawler\<close>

lemma set_set_order_acc:
  "set (fold (\<lambda>x acc. if x \<in> set acc then acc else acc @ [x]) xs acc) = set acc \<union> set xs"
  by (induction xs arbitrary: acc) auto

lemma set_set_order: "set (set_order xs) = set xs"
  by (simp add: set_order_def set_set_order_acc)

lemma batches_of_5_subset: "b \<in> set (batches_of_5 xs) \<Longrightarrow> set b \<subseteq> set xs"
proof (induction xs rule: batches_of_5.induct)
  case (1 xs)
  show ?case
  proof (cases "xs = []")
    case True
    with 1(2) show ?thesis by (subst (asm) batches_of_5.simps) simp
  next
    case False
    with 1(2) have "b = take 5 xs \<or> b \<in> set (batches_of_5 (drop 5 xs))"
      by (subst (asm) batches_of_5.simps) auto
    then show ?thesis
    proof
      assume "b = take 5 xs"
      then show ?thesis by (auto dest: in_set_takeD)
    next
      assume "b \<in> set (batches_of_5 (drop 5 xs))"
      with 1(1) False have "set b \<subseteq> set (drop 5 xs)" by simp
      then show ?thesis by (auto dest: in_set_dropD)
    qed
  qed
qed

lemma start_batch_inv:
  assumes "start_batch env us st = (st', started)"
    and "distinct (fetched st)" and "visitedUrls st = set (fetched st)"
  shows "distinct (fetched st') \<and> visitedUrls st' = set (fetched st') \<and>
         set (fetched st') \<subseteq> set (fetched st) \<union> set us \<and>
         newUrlsToCrawl st' = newUrlsToCrawl st"
  using assms
proof (induction us arbitrary: st st' started)
  case Nil
  then show ?case by simp
next
  case (Cons u us)
  show ?case
  proof (cases "u \<in> visitedUrls st")
    case True
    with Cons.prems have "start_batch env us st = (st', started)" by simp
    from Cons.IH [OF this Cons.prems(2,3)] show ?thesis by auto
  next
    case False
    let ?st1 = "st\<lparr>visitedUrls := insert u (visitedUrls st), fetched := fetched st @ [u]\<rparr>"
    from False Cons.prems(1) obtain rest where r: "start_batch env us ?st1 = (st', rest)"
      by (auto split: prod.splits)
    have d: "distinct (fetched ?st1)" using False Cons.prems(2,3) by auto
    have e: "visitedUrls ?st1 = set (fetched ?st1)" using Cons.prems(3) by auto
    from Cons.IH [OF r d e] show ?thesis by auto
  qed
qed

lemma finish_url_frame:
  "fetched (finish_url env domain deeper page st) = fetched st \<and>
   visitedUrls (finish_url env domain deeper page st) = visitedUrls st \<and>
   set (newUrlsToCrawl (finish_url env domain deeper page st)) \<subseteq>
     set (newUrlsToCrawl st) \<union> {link. isSameDomain (url_hostname env) link domain}"
  by (cases page) (auto simp: finish_url_def Let_def)

lemma fold_finish_url_frame:
  "fetched (fold (finish_url env domain deeper) pages st) = fetched st \<and>
   visitedUrls (fold (finish_url env domain deeper) pages st) = visitedUrls st \<and>
   set (newUrlsToCrawl (fold (finish_url env domain deeper) pages st)) \<subseteq>
     set (newUrlsToCrawl st) \<union> {link. isSameDomain (url_hostname env) link domain}"
proof (induction pages arbitrary: st)
  case Nil
  then show ?case by simp
next
  case (Cons p pages)
  from Cons [of "finish_url env domain deeper p st"] finish_url_frame [of env domain deeper p st]
  show ?case by auto
qed

lemma crawl_batch_inv:
  assumes "distinct (fetched st)" and "visitedUrls st = set (fetched st)"
  shows "distinct (fetched (crawl_batch env domain deeper batch st)) \<and>
         visitedUrls (crawl_batch env domain deeper batch st) = set (fetched (crawl_batch env domain deeper batch st)) \<and>
         set (fetched (crawl_batch env domain deeper batch st)) \<subseteq> set (fetched st) \<union> set batch \<and>
         set (newUrlsToCrawl (crawl_batch env domain deeper batch st)) \<subseteq>
           set (newUrlsToCrawl st) \<union> {link. isSameDomain (url_hostname env) link domain}"
proof -
  obtain st1 started where s: "start_batch env batch st = (st1, started)"
    by (cases "start_batch env batch st")
  from start_batch_inv [OF s assms] fold_finish_url_frame [of env domain deeper "completion_order env started" st1]
  show ?thesis by (simp add: crawl_batch_def s)
qed

lemma fold_crawl_batch_inv:
  assumes "distinct (fetched st)" and "visitedUrls st = set (fetched st)"
  shows "distinct (fetched (fold (crawl_batch env domain deeper) bs st)) \<and>
         visitedUrls (fold (crawl_batch env domain deeper) bs st) = set (fetched (fold (crawl_batch env domain deeper) bs st)) \<and>
         set (fetched (fold (crawl_batch env domain deeper) bs st)) \<subseteq> set (fetched st) \<union> \<Union> (set ` set bs) \<and>
         set (newUrlsToCrawl (fold (crawl_batch env domain deeper) bs st)) \<subseteq>
           set (newUrlsToCrawl st) \<union> {link. isSameDomain (url_hostname env) link domain}"
  using assms
proof (induction bs arbitrary: st)
  case Nil
  then show ?case by simp
next
  case (Cons b bs)
  note step = crawl_batch_inv [OF Cons.prems, of env domain deeper b]
  from step have d: "distinct (fetched (crawl_batch env domain deeper b st))"
    and e: "visitedUrls (crawl_batch env domain deeper b st) = set (fetched (crawl_batch env domain deeper b st))"
    by simp_all
  from Cons.IH [OF d e] step show ?case by auto
qed


lemma crawl_levels_inv:
  assumes "distinct (fetched st)" and "visitedUrls st = set (fetched st)"
    and "\<forall>u \<in> set (fetched st). u = baseUrl \<or> isSameDomain (url_hostname env) u domain"
    and "\<forall>u \<in> set urlsToCrawl. u = baseUrl \<or> isSameDomain (url_hostname env) u domain"
  shows "distinct (fetched (crawl_levels env domain crawlDepth depth urlsToCrawl st)) \<and>
         (\<forall>u \<in> set (fetched (crawl_levels env domain crawlDepth depth urlsToCrawl st)).
            u = baseUrl \<or> isSameDomain (url_hostname env) u domain)"
  using assms
proof (induction env domain crawlDepth depth urlsToCrawl st rule: crawl_levels.induct)
  case (1 env domain crawlDepth depth urlsToCrawl st)
  let ?st0 = "st\<lparr>newUrlsToCrawl := []\<rparr>"
  let ?st1 = "fold (crawl_batch env domain (depth < crawlDepth - 1)) (batches_of_5 urlsToCrawl) ?st0"
  let ?urls1 = "set_order (newUrlsToCrawl ?st1)"
  show ?case
  proof (cases "depth < crawlDepth")
    case False
    then show ?thesis using "1.prems" by (subst crawl_levels.simps, subst crawl_levels.simps) simp
  next
    case True
    have d0: "distinct (fetched ?st0)" and e0: "visitedUrls ?st0 = set (fetched ?st0)"
      using "1.prems" by simp_all
    note lvl = fold_crawl_batch_inv [OF d0 e0, of env domain "depth < crawlDepth - 1" "batches_of_5 urlsToCrawl"]
    from lvl have d1: "distinct (fetched ?st1)" and e1: "visitedUrls ?st1 = set (fetched ?st1)"
      by simp_all
    from lvl have "set (fetched ?st1) \<subseteq> set (fetched st) \<union> \<Union> (set ` set (batches_of_5 urlsToCrawl))"
      by simp
    moreover have "\<Union> (set ` set (batches_of_5 urlsToCrawl)) \<subseteq> set urlsToCrawl"
      using batches_of_5_subset by blast
    ultimately have f1: "\<forall>u \<in> set (fetched ?st1). u = baseUrl \<or> isSameDomain (url_hostname env) u domain"
      using "1.prems"(3,4) by blast
    from lvl have "set (newUrlsToCrawl ?st1) \<subseteq> {link. isSameDomain (url_hostname env) link domain}"
      by simp
    then have n1: "\<forall>u \<in> set ?urls1. u = baseUrl \<or> isSameDomain (url_hostname env) u domain"
      by (auto simp: set_set_order)
    show ?thesis
    proof (cases "?urls1 = []")
      case True
      with \<open>depth < crawlDepth\<close> d1 f1 show ?thesis
        by (subst crawl_levels.simps, subst crawl_levels.simps) (simp add: Let_def)
    next
      case False
      from "1.IH" [OF True refl refl False d1 e1 f1 n1] True False show ?thesis
        by (subst crawl_levels.simps, subst crawl_levels.simps) (simp add: Let_def)
    qed
  qed
qed

text \<open>
  C6: for every starting URL that the crawl accepts, every crawl depth (1 to 3 included), every
  web and every order in which the requests of a batch complete, no URL is requested twice, and
  every requested URL other than the (normalised) starting URL has a host name that is the
  starting URL's domain or ends with a dot followed by that domain.
\<close>

theorem crawl_no_revisit_same_domain:
  assumes "crawl env normalizeUrl parse_hostname url configCrawlDepth = Inr st"
  shows "distinct (fetched st) \<and>
         (\<forall>u \<in> set (fetched st).
            u = normalizeUrl url \<or>
            isSameDomain (url_hostname env) u (parse_hostname (normalizeUrl url)))"
proof -
  let ?init = "\<lparr>visitedUrls = {}, fetched = [], crawledPages = [], newUrlsToCrawl = []\<rparr>"
  from assms have st: "st = crawl_levels env (parse_hostname (normalizeUrl url))
      (nat_or configCrawlDepth 1) 0 [normalizeUrl url] ?init"
    by (auto simp: crawl_def Let_def split: if_splits)
  show ?thesis
    unfolding st
    by (rule crawl_levels_inv) simp_all
qed


text \<open>A start page that links to a page of its own domain (twice), to a subdomain and to
  another domain, crawled to depth 2: the foreign link is not followed.\<close>

theorem crawl_no_revisit_same_domain_witness:
  "(case crawl
      \<lparr>crawlUrl = (\<lambda>u. if u = ''https://example.com''
                       then (''Home'', [''https://example.com/a'', ''https://evil.org/x'',
                                       ''https://example.com/a'', ''https://docs.example.com/''])
                       else if u = ''https://example.com/a''
                       then (''A'', [''https://example.com'', ''https://example.com/b''])
                       else ([], [])),
       url_hostname = (\<lambda>u. if u = ''https://evil.org/x'' then Some ''evil.org''
                            else if u = ''https://docs.example.com/'' then Some ''docs.example.com''
                            else Some ''example.com''),
       completion_order = rev\<rparr>
      (\<lambda>u. u) (\<lambda>u. ''example.com'') ''https://example.com'' (Some 2) of
      Inl e \<Rightarrow> False
    | Inr st \<Rightarrow>
        fetched st = [''https://example.com'', ''https://example.com/a'', ''https://docs.example.com/'']
        \<and> distinct (fetched st) \<and> ''https://evil.org/x'' \<notin> set (fetched st))"
proof -
  let ?env = "\<lparr>crawlUrl = (\<lambda>u. if u = ''https://example.com''
                       then (''Home'', [''https://example.com/a'', ''https://evil.org/x'',
                                       ''https://example.com/a'', ''https://docs.example.com/''])
                       else if u = ''https://example.com/a''
                       then (''A'', [''https://example.com'', ''https://example.com/b''])
                       else ([], [])),
       url_hostname = (\<lambda>u. if u = ''https://evil.org/x'' then Some ''evil.org''
                            else if u = ''https://docs.example.com/'' then Some ''docs.example.com''
                            else Some ''example.com''),
       completion_order = rev\<rparr>"
  let ?st = "crawl_levels ?env ''example.com'' 2 0 [''https://example.com'']
               \<lparr>visitedUrls = {}, fetched = [], crawledPages = [], newUrlsToCrawl = []\<rparr>"
  have c: "crawl ?env (\<lambda>u. u) (\<lambda>u. ''example.com'') ''https://example.com'' (Some 2) = Inr ?st"
    by (simp add: crawl_def isValidUrl_def starts_with_def nat_or_def)
  have f: "fetched ?st = [''https://example.com'', ''https://example.com/a'', ''https://docs.example.com/'']"
    by code_simp
  from crawl_no_revisit_same_domain [OF c] show ?thesis
    by (simp add: c f)
qed


section \<open>Properties of the input validation\<close>

lemma source_errors_empty: "source_errors i s = [] \<longleftrightarrow> \<not> source_incomplete (Some s)"
  by (auto simp: source_errors_def source_incomplete_def)

lemma check_sources_Inr:
  "check_sources i srcs errs = Inr errs' \<Longrightarrow>
   (errs' = [] \<longleftrightarrow> errs = [] \<and> \<not> list_ex source_incomplete srcs)"
proof (induction i srcs errs rule: check_sources.induct)
  case (1 index errs)
  then show ?case by simp
next
  case (2 index rest errs)
  then show ?case by simp
next
  case (3 index source rest errs)
  then show ?case by (auto simp: source_errors_empty)
qed

lemma check_sources_Inl:
  "check_sources i srcs errs = Inl x \<Longrightarrow> list_ex source_incomplete srcs"
  by (induction i srcs errs rule: check_sources.induct) (auto simp: source_incomplete_def)



text \<open>
  The handler accepts exactly when no check pushed an error and the loop over the data sources
  did not throw.
\<close>

lemma isValid_checks:
  "(isValid (validate_input tenant_get event) \<longleftrightarrow>
      tenant_errors tenant_get (pe_tenantId event) = []
      \<and> (case pe_dataSources event of
            None \<Rightarrow> False
          | Some srcs \<Rightarrow> srcs \<noteq> [] \<and> \<not> list_ex source_incomplete srcs)
      \<and> config_errors (pe_config event) = [])
   \<and> (isValid (validate_input tenant_get event) \<longleftrightarrow> errors (validate_input tenant_get event) = [])"
proof -
  let ?e1 = "tenant_errors tenant_get (pe_tenantId event)"
  show ?thesis
  proof (cases "pe_dataSources event")
    case None
    then show ?thesis
      by (simp add: validate_input_def validate_try_def)
  next
    case (Some srcs)
    show ?thesis
    proof (cases srcs)
      case Nil
      with Some show ?thesis
        by (simp add: validate_input_def validate_try_def)
    next
      case (Cons s ss)
      show ?thesis
      proof (cases "check_sources 0 srcs ?e1")
        case (Inl x)
        from check_sources_Inl [OF Inl] Inl Some Cons show ?thesis
          by (cases x) (simp add: validate_input_def validate_try_def)
      next
        case (Inr errs2)
        from check_sources_Inr [OF Inr] have "errs2 = [] \<longleftrightarrow> ?e1 = [] \<and> \<not> list_ex source_incomplete srcs" .
        with Inr Some Cons show ?thesis
          by (simp add: validate_input_def validate_try_def)
      qed
    qed
  qed
qed




text \<open>
  Settings of another kind are read with \<open>parseInt\<close>, which takes the leading digits and drops
  what follows them. A crawl depth given as the number 3.9, as the string "3.9" or "2abc", or as
  the number \<open>2e+21\<close> passes the check whose message is "must be a number between 1 and 3"; a
  depth without leading digits, such as "abc" or \<open>null\<close>, does not.
\<close>

lemma validate_input_reads_leading_digits:
  "list_all (\<lambda>depth. isValid (validate_input (\<lambda>t. Returned True)
      \<lparr>pe_tenantId = Some ''tenant1'',
       pe_dataSources = Some [Some \<lparr>ds_type = Some (JStr ''website''),
                                    ds_url = Some (JStr ''https://example.com''),
                                    ds_name = Some (JStr ''Docs'')\<rparr>],
       pe_config = Some \<lparr>pc_crawlDepth = Some depth, pc_memoryDuration = None,
                         pc_maxDocuments = None, pc_embeddingModel = None\<rparr>\<rparr>))
     [JNumPrint ''3.9'', JStr ''3.9'', JStr ''2abc'', JNumPrint ''2e+21''] \<and>
   list_all (\<lambda>depth. \<not> isValid (validate_input (\<lambda>t. Returned True)
      \<lparr>pe_tenantId = Some ''tenant1'',
       pe_dataSources = Some [Some \<lparr>ds_type = Some (JStr ''website''),
                                    ds_url = Some (JStr ''https://example.com''),
                                    ds_name = Some (JStr ''Docs'')\<rparr>],
       pe_config = Some \<lparr>pc_crawlDepth = Some depth, pc_memoryDuration = None,
                         pc_maxDocuments = None, pc_embeddingModel = None\<rparr>\<rparr>))
     [JStr ''abc'', JNull]"
  by code_simp


section \<open>Properties of the state machine\<close>

lemma run_task_catch_all:
  "run_task call retry [Catcher [''States.ALL''] t] = Proceed \<or>
   (\<exists>e. run_task call retry [Catcher [''States.ALL''] t] = Caught t e)"
  by (simp add: run_task_def error_matches_def split: outcome.splits)

lemma run_iter_Suc:
  "0 < fuel \<Longrightarrow> run_iter fuel env item s br =
     (case iter_step env item s (br\<lparr>b_trace := b_trace br @ [s]\<rparr>) of
        (br', Goto s') \<Rightarrow> run_iter (fuel - 1) env item s' br'
      | (br', Stop) \<Rightarrow> Done br'
      | (br', Abort e) \<Rightarrow> Aborted e)"
  by (cases fuel) simp_all

lemma step_stage:
  "iterator s = Task fn None retry [Catcher [''States.ALL''] t] (Next n) \<Longrightarrow>
   iter_step env item s br =
     (case stage_result env s of
        Proceed \<Rightarrow> (br, Goto n)
      | Caught t' e \<Rightarrow> (br\<lparr>b_error := Some e\<rparr>, Goto t)
      | Uncaught e \<Rightarrow> (br, Abort e))"
  using run_task_catch_all [of "lambda_call env s" retry t]
  by (auto simp: iter_step_def stage_result_def follow_def)

lemma stage_result_cases:
  assumes "s \<in> {CrawlWebsite, FetchFromApi, ProcessDocument, ExtractText, GenerateEmbeddings, StoreEmbeddings}"
  shows "stage_result env s = Proceed \<or> (\<exists>t e. stage_result env s = Caught t e)"
proof -
  from assms obtain retry t where
    "stage_result env s = run_task (lambda_call env s) retry [Catcher [''States.ALL''] t]"
    by (auto simp: stage_result_def)
  with run_task_catch_all [of "lambda_call env s" retry t] show ?thesis by auto
qed

lemma step_handler:
  "iterator s = Task ErrorHandlerFunction (Some (err, msg)) [] [] (Next n) \<Longrightarrow>
   iter_step env item s br =
     (br\<lparr>b_errorHandled := Some (error_handler (handler_aws env s)
            \<lparr>ee_error = Some err, ee_message = Some msg, ee_tenantId = None\<rparr>)\<rparr>, Goto n)"
  by (simp add: iter_step_def follow_def)

lemma step_pass:
  "iterator s = Pass status End \<Longrightarrow> iter_step env item s br = (br\<lparr>b_status := Some status\<rparr>, Stop)"
  by (simp add: iter_step_def follow_def)

lemma step_choice:
  "iter_step env (Some src) DetermineSourceType br =
     (case ds_type src of
        None \<Rightarrow> (br, Abort ''States.Runtime'')
      | Some (JStr t) \<Rightarrow> (br, Goto (if t = ''website'' then CrawlWebsite else if t = ''api'' then FetchFromApi
                                      else if t = ''document'' then ProcessDocument else InvalidSourceType))
      | Some other \<Rightarrow> (br, Goto InvalidSourceType))"
  by (auto simp: iter_step_def split: option.splits jsval.splits)

lemmas stage_steps =
  step_stage [OF iterator.simps(2)] step_stage [OF iterator.simps(3)] step_stage [OF iterator.simps(4)]
  step_stage [OF iterator.simps(9)] step_stage [OF iterator.simps(11)] step_stage [OF iterator.simps(13)]

lemmas handler_steps =
  step_handler [OF iterator.simps(5)] step_handler [OF iterator.simps(6)]
  step_handler [OF iterator.simps(7)] step_handler [OF iterator.simps(8)]
  step_handler [OF iterator.simps(10)] step_handler [OF iterator.simps(12)]
  step_handler [OF iterator.simps(14)]

lemmas pass_steps = step_pass [OF iterator.simps(15)] step_pass [OF iterator.simps(16)]

lemma end_failed:
  assumes "2 \<le> fuel"
    and "s \<in> {CrawlError, ApiError, DocumentError, ExtractError, EmbeddingError, StorageError, InvalidSourceType}"
  shows "\<exists>br'. run_iter fuel env item s br = Done br' \<and>
           last (b_trace br') = SourceProcessingFailed \<and> b_status br' = Some ''failed''"
  using assms by (auto simp: run_iter_Suc handler_steps pass_steps)

lemma from_store:
  assumes "3 \<le> fuel"
  shows "\<exists>br'. run_iter fuel env item StoreEmbeddings br = Done br' \<and>
           (if stage_result env StoreEmbeddings = Proceed
            then b_trace br' = b_trace br @ [StoreEmbeddings, SourceProcessingSucceeded] \<and>
                 b_status br' = Some ''succeeded''
            else last (b_trace br') = SourceProcessingFailed \<and> b_status br' = Some ''failed'')"
proof -
  consider "stage_result env StoreEmbeddings = Proceed"
    | t e where "stage_result env StoreEmbeddings = Caught t e"
    using stage_result_cases [of StoreEmbeddings env] by auto
  then show ?thesis
  proof cases
    case 1
    with assms show ?thesis by (simp add: run_iter_Suc stage_steps pass_steps)
  next
    case 2
    have "2 \<le> fuel - 1" using assms by simp
    from end_failed [OF this, of StorageError env item "br\<lparr>b_trace := b_trace br @ [StoreEmbeddings], b_error := Some e\<rparr>"]
    show ?thesis using 2 assms by (simp add: run_iter_Suc [of fuel] stage_steps)
  qed
qed

lemma from_generate:
  assumes "4 \<le> fuel"
  shows "\<exists>br'. run_iter fuel env item GenerateEmbeddings br = Done br' \<and>
           (if stage_result env GenerateEmbeddings = Proceed \<and> stage_result env StoreEmbeddings = Proceed
            then b_trace br' = b_trace br @ [GenerateEmbeddings, StoreEmbeddings, SourceProcessingSucceeded] \<and>
                 b_status br' = Some ''succeeded''
            else last (b_trace br') = SourceProcessingFailed \<and> b_status br' = Some ''failed'')"
proof -
  consider "stage_result env GenerateEmbeddings = Proceed"
    | t e where "stage_result env GenerateEmbeddings = Caught t e"
    using stage_result_cases [of GenerateEmbeddings env] by auto
  then show ?thesis
  proof cases
    case 1
    have "3 \<le> fuel - 1" using assms by simp
    from from_store [OF this, of env item "br\<lparr>b_trace := b_trace br @ [GenerateEmbeddings]\<rparr>"]
    show ?thesis using 1 assms by (auto simp: run_iter_Suc [of fuel] stage_steps)
  next
    case 2
    have "2 \<le> fuel - 1" using assms by simp
    from end_failed [OF this, of EmbeddingError env item "br\<lparr>b_trace := b_trace br @ [GenerateEmbeddings], b_error := Some e\<rparr>"]
    show ?thesis using 2 assms by (simp add: run_iter_Suc [of fuel] stage_steps)
  qed
qed

lemma from_extract:
  assumes "5 \<le> fuel"
  shows "\<exists>br'. run_iter fuel env item ExtractText br = Done br' \<and>
           (if stage_result env ExtractText = Proceed \<and> stage_result env GenerateEmbeddings = Proceed \<and>
               stage_result env StoreEmbeddings = Proceed
            then b_trace br' = b_trace br @ [ExtractText, GenerateEmbeddings, StoreEmbeddings,
                                            SourceProcessingSucceeded] \<and>
                 b_status br' = Some ''succeeded''
            else last (b_trace br') = SourceProcessingFailed \<and> b_status br' = Some ''failed'')"
proof -
  consider "stage_result env ExtractText = Proceed"
    | t e where "stage_result env ExtractText = Caught t e"
    using stage_result_cases [of ExtractText env] by auto
  then show ?thesis
  proof cases
    case 1
    have "4 \<le> fuel - 1" using assms by simp
    from from_generate [OF this, of env item "br\<lparr>b_trace := b_trace br @ [ExtractText]\<rparr>"]
    show ?thesis using 1 assms by (auto simp: run_iter_Suc [of fuel] stage_steps)
  next
    case 2
    have "2 \<le> fuel - 1" using assms by simp
    from end_failed [OF this, of ExtractError env item "br\<lparr>b_trace := b_trace br @ [ExtractText], b_error := Some e\<rparr>"]
    show ?thesis using 2 assms by (simp add: run_iter_Suc [of fuel] stage_steps)
  qed
qed

lemma from_fetch:
  assumes "6 \<le> fuel" and "s = CrawlWebsite \<or> s = FetchFromApi \<or> s = ProcessDocument"
  shows "\<exists>br'. run_iter fuel env item s br = Done br' \<and>
           (if stage_result env s = Proceed \<and> stage_result env ExtractText = Proceed \<and>
               stage_result env GenerateEmbeddings = Proceed \<and> stage_result env StoreEmbeddings = Proceed
            then b_trace br' = b_trace br @ [s, ExtractText, GenerateEmbeddings, StoreEmbeddings,
                                            SourceProcessingSucceeded] \<and>
                 b_status br' = Some ''succeeded''
            else last (b_trace br') = SourceProcessingFailed \<and> b_status br' = Some ''failed'')"
proof -
  have m: "s \<in> {CrawlWebsite, FetchFromApi, ProcessDocument, ExtractText, GenerateEmbeddings, StoreEmbeddings}"
    using assms(2) by auto
  consider "stage_result env s = Proceed" | t e where "stage_result env s = Caught t e"
    using stage_result_cases [OF m, of env] by auto
  then show ?thesis
  proof cases
    case 1
    have "5 \<le> fuel - 1" using assms by simp
    from from_extract [OF this, of env item "br\<lparr>b_trace := b_trace br @ [s]\<rparr>"]
    show ?thesis using 1 assms by (auto simp: run_iter_Suc [of fuel] stage_steps)
  next
    case 2
    have f: "2 \<le> fuel - 1" using assms by simp
    from assms(2) show ?thesis
    proof (elim disjE)
      assume s: "s = CrawlWebsite"
      from end_failed [OF f, of CrawlError env item "br\<lparr>b_trace := b_trace br @ [s], b_error := Some e\<rparr>"]
      show ?thesis using 2 assms(1) s by (simp add: run_iter_Suc [of fuel] stage_steps)
    next
      assume s: "s = FetchFromApi"
      from end_failed [OF f, of ApiError env item "br\<lparr>b_trace := b_trace br @ [s], b_error := Some e\<rparr>"]
      show ?thesis using 2 assms(1) s by (simp add: run_iter_Suc [of fuel] stage_steps)
    next
      assume s: "s = ProcessDocument"
      from end_failed [OF f, of DocumentError env item "br\<lparr>b_trace := b_trace br @ [s], b_error := Some e\<rparr>"]
      show ?thesis using 2 assms(1) s by (simp add: run_iter_Suc [of fuel] stage_steps)
    qed
  qed
qed

lemma run_branch_known:
  assumes "ds_type src = Some (JStr t)" and "t = ''website'' \<or> t = ''api'' \<or> t = ''document''"
  shows "\<exists>br. run_branch env (Some src) = Done br \<and>
          (if stage_result env (fetch_state t) = Proceed \<and> stage_result env ExtractText = Proceed \<and>
              stage_result env GenerateEmbeddings = Proceed \<and> stage_result env StoreEmbeddings = Proceed
           then b_trace br = [DetermineSourceType, fetch_state t, ExtractText, GenerateEmbeddings,
                              StoreEmbeddings, SourceProcessingSucceeded] \<and>
                b_status br = Some ''succeeded''
           else last (b_trace br) = SourceProcessingFailed \<and> b_status br = Some ''failed'')"
proof -
  let ?br0 = "\<lparr>b_trace = [DetermineSourceType], b_error = None, b_errorHandled = None, b_status = None\<rparr>"
  have f: "fetch_state t = CrawlWebsite \<or> fetch_state t = FetchFromApi \<or> fetch_state t = ProcessDocument"
    using assms(2) by (auto simp: fetch_state_def)
  have g: "run_branch env (Some src) = run_iter 15 env (Some src) (fetch_state t) ?br0"
    using assms by (auto simp: run_branch_def run_iter_Suc [of 16] step_choice fetch_state_def)
  from from_fetch [OF _ f, of 15 env "Some src" ?br0] show ?thesis
    by (auto simp: g)
qed

lemma run_top_Suc:
  "0 < fuel \<Longrightarrow> run_top fuel env event s r =
     (case top_step env event s (r\<lparr>r_trace := r_trace r @ [s]\<rparr>) of
        (r', Goto s') \<Rightarrow> run_top (fuel - 1) env event s' r'
      | (r', Stop) \<Rightarrow> (r', Ended)
      | (r', Abort e) \<Rightarrow> (r', Failed_with e))"
  by (cases fuel) simp_all

lemma run_task_bare:
  "run_task call [] ([] :: 's catcher list) = Proceed \<or> (\<exists>e. run_task call [] ([] :: 's catcher list) = Uncaught e)"
  by (simp add: run_task_def run_attempts.simps split: outcome.splits)

lemma top_bare_cases:
  assumes "s = AnalyzeResults \<or> s = NotifyCompletion"
  shows "top_result env s = Proceed \<or> (\<exists>e. top_result env s = Uncaught e)"
  using assms run_task_bare [of "lambda_call (top_env env) s"]
  by (auto simp: top_result_def)

lemma top_guarded_cases:
  "top_result env ConfigureMemoryDuration = Proceed \<or>
     (\<exists>e. top_result env ConfigureMemoryDuration = Caught MemoryConfigError e)"
  "top_result env UpdateMetadata = Proceed \<or>
     (\<exists>e. top_result env UpdateMetadata = Caught MetadataError e)"
  "top_result env ScheduleNextCrawl = Proceed \<or>
     (\<exists>e. top_result env ScheduleNextCrawl = Caught ScheduleError e)"
  using run_task_catch_all [of "lambda_call (top_env env) ConfigureMemoryDuration" _ MemoryConfigError]
    run_task_catch_all [of "lambda_call (top_env env) UpdateMetadata" _ MetadataError]
    run_task_catch_all [of "lambda_call (top_env env) ScheduleNextCrawl" _ ScheduleError]
  by (simp_all add: top_result_def)

lemma top_step_task:
  "pipeline s = Task fn None retry catch flow \<Longrightarrow> fn \<noteq> ValidateInputFunction \<Longrightarrow>
   top_step env event s r =
     (case top_result env s of
        Proceed \<Rightarrow> (r, follow flow)
      | Caught target e \<Rightarrow> (r\<lparr>r_error := Some e\<rparr>, Goto target)
      | Uncaught e \<Rightarrow> (r, Abort e))"
  by (simp add: top_step_def top_result_def)

lemma top_step_handler:
  "pipeline s = Task fn (Some (err, msg)) retry catch flow \<Longrightarrow>
   top_step env event s r =
     (r\<lparr>r_errorHandled := Some (error_handler (handler_aws (top_env env) s)
            \<lparr>ee_error = Some err, ee_message = Some msg, ee_tenantId = None\<rparr>)\<rparr>, follow flow)"
  by (simp add: top_step_def)

lemmas top_task_steps =
  top_step_task [OF pipeline.simps(5), simplified] top_step_task [OF pipeline.simps(7), simplified]
  top_step_task [OF pipeline.simps(9), simplified] top_step_task [OF pipeline.simps(11), simplified]
  top_step_task [OF pipeline.simps(12), simplified]

lemmas top_handler_steps =
  top_step_handler [OF pipeline.simps(3)] top_step_handler [OF pipeline.simps(6)]
  top_step_handler [OF pipeline.simps(8)] top_step_handler [OF pipeline.simps(10)]

lemma from_notify:
  assumes "1 \<le> fuel"
  shows "\<exists>r'. run_top fuel env event NotifyCompletion r =
           (r', case top_result env NotifyCompletion of
                  Proceed \<Rightarrow> Ended | Caught t e \<Rightarrow> Failed_with e | Uncaught e \<Rightarrow> Failed_with e) \<and>
         r_trace r' = r_trace r @ [NotifyCompletion] \<and> same_data r r'"
  using assms top_bare_cases [of NotifyCompletion env]
  by (auto simp: run_top_Suc top_task_steps follow_def same_data_def)

lemma from_analyze:
  assumes "2 \<le> fuel"
  shows "\<exists>r'. run_top fuel env event AnalyzeResults r = (r', tenant_steps_end env) \<and>
         r_trace r' = r_trace r @ [AnalyzeResults]
           @ (if top_result env AnalyzeResults = Proceed then [NotifyCompletion] else []) \<and>
         same_data r r'"
proof -
  consider "top_result env AnalyzeResults = Proceed" | e where "top_result env AnalyzeResults = Uncaught e"
    using top_bare_cases [of AnalyzeResults env] by auto
  then show ?thesis
  proof cases
    case 1
    have "1 \<le> fuel - 1" using assms by simp
    from from_notify [OF this, of env event "r\<lparr>r_trace := r_trace r @ [AnalyzeResults]\<rparr>"]
    show ?thesis using 1 assms
      by (auto simp: run_top_Suc [of fuel] top_task_steps follow_def tenant_steps_end_def same_data_def)
  next
    case 2
    then show ?thesis using assms
      by (simp add: run_top_Suc [of fuel] top_task_steps tenant_steps_end_def same_data_def)
  qed
qed


lemma from_schedule:
  assumes "4 \<le> fuel"
  shows "\<exists>r'. run_top fuel env event ScheduleNextCrawl r = (r', tenant_steps_end env) \<and>
         r_trace r' = r_trace r @ [ScheduleNextCrawl]
           @ (if top_result env ScheduleNextCrawl = Proceed then [] else [ScheduleError])
           @ [AnalyzeResults]
           @ (if top_result env AnalyzeResults = Proceed then [NotifyCompletion] else []) \<and>
         same_data r r'"
proof -
  consider "top_result env ScheduleNextCrawl = Proceed"
    | e where "top_result env ScheduleNextCrawl = Caught ScheduleError e"
    using top_guarded_cases(3) [of env] by auto
  then show ?thesis
  proof cases
    case 1
    have "2 \<le> fuel - 1" using assms by simp
    from from_analyze [OF this, of env event "r\<lparr>r_trace := r_trace r @ [ScheduleNextCrawl]\<rparr>"]
    show ?thesis using 1 assms
      by (auto simp: run_top_Suc [of fuel] top_task_steps follow_def same_data_def)
  next
    case 2
    have "2 \<le> fuel - 1 - 1" using assms by simp
    from from_analyze [OF this, of env event
        "r\<lparr>r_error := Some e, r_trace := r_trace r @ [ScheduleNextCrawl, ScheduleError],
           r_errorHandled := Some (error_handler (handler_aws (top_env env) ScheduleError)
              \<lparr>ee_error = Some ''ScheduleError'', ee_message = Some ''Failed to schedule next crawl'', ee_tenantId = None\<rparr>)\<rparr>"]
    show ?thesis using 2 assms
      by (auto simp: run_top_Suc [of fuel] run_top_Suc [of "fuel - Suc 0"] top_task_steps
          top_handler_steps follow_def same_data_def)
  qed
qed

lemma from_metadata:
  assumes "6 \<le> fuel"
  shows "\<exists>r'. run_top fuel env event UpdateMetadata r = (r', tenant_steps_end env) \<and>
         r_trace r' = r_trace r @ [UpdateMetadata]
           @ (if top_result env UpdateMetadata = Proceed then [] else [MetadataError])
           @ [ScheduleNextCrawl]
           @ (if top_result env ScheduleNextCrawl = Proceed then [] else [ScheduleError])
           @ [AnalyzeResults]
           @ (if top_result env AnalyzeResults = Proceed then [NotifyCompletion] else []) \<and>
         same_data r r'"
proof -
  consider "top_result env UpdateMetadata = Proceed"
    | e where "top_result env UpdateMetadata = Caught MetadataError e"
    using top_guarded_cases(2) [of env] by auto
  then show ?thesis
  proof cases
    case 1
    have "4 \<le> fuel - 1" using assms by simp
    from from_schedule [OF this, of env event "r\<lparr>r_trace := r_trace r @ [UpdateMetadata]\<rparr>"]
    show ?thesis using 1 assms
      by (auto simp: run_top_Suc [of fuel] top_task_steps follow_def same_data_def)
  next
    case 2
    have "4 \<le> fuel - 1 - 1" using assms by simp
    from from_schedule [OF this, of env event
        "r\<lparr>r_error := Some e, r_trace := r_trace r @ [UpdateMetadata, MetadataError],
           r_errorHandled := Some (error_handler (handler_aws (top_env env) MetadataError)
              \<lparr>ee_error = Some ''MetadataError'', ee_message = Some ''Failed to update metadata'', ee_tenantId = None\<rparr>)\<rparr>"]
    show ?thesis using 2 assms
      by (auto simp: run_top_Suc [of fuel] run_top_Suc [of "fuel - Suc 0"] top_task_steps
          top_handler_steps follow_def same_data_def)
  qed
qed

lemma from_memory:
  assumes "8 \<le> fuel"
  shows "\<exists>r'. run_top fuel env event ConfigureMemoryDuration r = (r', tenant_steps_end env) \<and>
         r_trace r' = r_trace r @ tenant_steps env \<and> same_data r r'"
proof -
  consider "top_result env ConfigureMemoryDuration = Proceed"
    | e where "top_result env ConfigureMemoryDuration = Caught MemoryConfigError e"
    using top_guarded_cases(1) [of env] by auto
  then show ?thesis
  proof cases
    case 1
    have "6 \<le> fuel - 1" using assms by simp
    from from_metadata [OF this, of env event "r\<lparr>r_trace := r_trace r @ [ConfigureMemoryDuration]\<rparr>"]
    show ?thesis using 1 assms
      by (auto simp: run_top_Suc [of fuel] top_task_steps follow_def same_data_def tenant_steps_def)
  next
    case 2
    have "6 \<le> fuel - 1 - 1" using assms by simp
    from from_metadata [OF this, of env event
        "r\<lparr>r_error := Some e, r_trace := r_trace r @ [ConfigureMemoryDuration, MemoryConfigError],
           r_errorHandled := Some (error_handler (handler_aws (top_env env) MemoryConfigError)
              \<lparr>ee_error = Some ''MemoryConfigError'',
               ee_message = Some ''Failed to configure memory duration'', ee_tenantId = None\<rparr>)\<rparr>"]
    show ?thesis using 2 assms
      by (auto simp: run_top_Suc [of fuel] run_top_Suc [of "fuel - Suc 0"] top_task_steps
          top_handler_steps follow_def same_data_def tenant_steps_def)
  qed
qed

lemma run_branch_outcome:
  assumes "known_source item"
  shows "\<exists>br. run_branch env item = Done br \<and>
          (if list_all (\<lambda>s. stage_result env s = Proceed) (branch_stages item)
           then b_trace br = DetermineSourceType # branch_stages item @ [SourceProcessingSucceeded] \<and>
                b_status br = Some ''succeeded''
           else last (b_trace br) = SourceProcessingFailed \<and> b_status br = Some ''failed'')"
proof -
  from assms obtain src t where i: "item = Some src" and t: "ds_type src = Some (JStr t)"
    and k: "t = ''website'' \<or> t = ''api'' \<or> t = ''document''"
    by (auto simp: known_source_def known_type_def split: option.splits)
  from run_branch_known [OF t k, of env] show ?thesis
    using k by (auto simp: i t branch_stages_def known_type_def)
qed

lemma run_map_outcome:
  assumes "list_all known_source items"
  shows "\<exists>branches. run_map envs index items = Done branches \<and> length branches = length items \<and>
           (\<forall>k < length items. run_branch (envs (index + k)) (items ! k) = Done (branches ! k))"
  using assms
proof (induction items arbitrary: index)
  case Nil
  then show ?case by simp
next
  case (Cons item items)
  from Cons.prems have "known_source item" and rest: "list_all known_source items" by simp_all
  from run_branch_outcome [OF this(1), of "envs index"] obtain br
    where br: "run_branch (envs index) item = Done br" by blast
  from Cons.IH [OF rest, of "Suc index"] obtain brs
    where brs: "run_map envs (Suc index) items = Done brs" "length brs = length items"
      "\<forall>k < length items. run_branch (envs (Suc index + k)) (items ! k) = Done (brs ! k)"
    by blast
  have "\<forall>k < length (item # items). run_branch (envs (index + k)) ((item # items) ! k) = Done ((br # brs) ! k)"
  proof (intro allI impI)
    fix k assume "k < length (item # items)"
    then show "run_branch (envs (index + k)) ((item # items) ! k) = Done ((br # brs) ! k)"
      using br brs(3) by (cases k) auto
  qed
  with br brs show ?case by simp
qed

lemma accepted_sources:
  assumes "isValid (validate_input tg event)"
  shows "\<exists>items. pe_dataSources event = Some items \<and> items \<noteq> [] \<and> list_all known_source items"
proof -
  from assms obtain items where i: "pe_dataSources event = Some items" and e: "items \<noteq> []"
    and c: "\<not> list_ex source_incomplete items"
    using isValid_checks [of tg event] by (auto split: option.splits)
  have "list_all known_source items"
    using c by (induction items)
      (auto simp: source_incomplete_def known_source_def split: option.splits)
  with i e show ?thesis by blast
qed

text \<open>
  C1, as the state machine has it. For every run whose input passes validation, whatever the
  stage tasks of the sources and the tenant-level tasks do: the map state completes with one
  result per data source; the result of a source is that of its own branch, run in its own
  environment; a branch ends in \<open>SourceProcessingSucceeded\<close> with status "succeeded" when all
  the stage tasks on its path succeed, and in \<open>SourceProcessingFailed\<close> with status "failed" as
  soon as one of them fails; and the run goes on through \<open>ConfigureMemoryDuration\<close>,
  \<open>UpdateMetadata\<close> and \<open>ScheduleNextCrawl\<close> (each through its error state when it fails) to
  \<open>AnalyzeResults\<close>, and from there to \<open>NotifyCompletion\<close> when the \<open>AnalyzeResults\<close> task
  succeeds. The states entered after the map depend on the tenant-level tasks only.
\<close>

theorem source_failures_isolated:
  assumes "isValid (validate_input (tenant_lookup env) event)"
  shows "\<exists>items branches r.
     pe_dataSources event = Some items \<and>
     start_execution env event = (r, tenant_steps_end env) \<and>
     r_trace r = [ValidateInput, CheckValidationResult, ProcessDataSources] @ tenant_steps env \<and>
     r_processedDataSources r = Some branches \<and>
     length branches = length items \<and>
     (\<forall>k < length items.
        run_branch (branch_env env k) (items ! k) = Done (branches ! k) \<and>
        (if list_all (\<lambda>s. stage_result (branch_env env k) s = Proceed) (branch_stages (items ! k))
         then b_trace (branches ! k) =
                DetermineSourceType # branch_stages (items ! k) @ [SourceProcessingSucceeded] \<and>
              b_status (branches ! k) = Some ''succeeded''
         else last (b_trace (branches ! k)) = SourceProcessingFailed \<and>
              b_status (branches ! k) = Some ''failed''))"
proof -
  from accepted_sources [OF assms] obtain items
    where i: "pe_dataSources event = Some items" and k: "list_all known_source items" by blast
  from run_map_outcome [OF k, of "branch_env env" 0] obtain branches
    where m: "run_map (branch_env env) 0 items = Done branches" and l: "length branches = length items"
      and b: "\<forall>k < length items. run_branch (branch_env env k) (items ! k) = Done (branches ! k)"
    by auto
  let ?r0 = "\<lparr>r_trace = [ValidateInput, CheckValidationResult, ProcessDataSources],
              r_validation = Some (validate_input (tenant_lookup env) event),
              r_processedDataSources = Some branches, r_error = None, r_errorHandled = None\<rparr>"
  have s: "start_execution env event = run_top 9 env event ConfigureMemoryDuration ?r0"
    using assms i m
    by (simp add: start_execution_def run_top_Suc [of 12] run_top_Suc [of 11] run_top_Suc [of 10]
        top_step_def follow_def)
  from from_memory [of 9 env event ?r0] obtain r
    where r: "run_top 9 env event ConfigureMemoryDuration ?r0 = (r, tenant_steps_end env)"
      and t: "r_trace r = r_trace ?r0 @ tenant_steps env" and d: "same_data ?r0 r"
    by auto
  have o: "\<forall>k < length items.
        run_branch (branch_env env k) (items ! k) = Done (branches ! k) \<and>
        (if list_all (\<lambda>s. stage_result (branch_env env k) s = Proceed) (branch_stages (items ! k))
         then b_trace (branches ! k) =
                DetermineSourceType # branch_stages (items ! k) @ [SourceProcessingSucceeded] \<and>
              b_status (branches ! k) = Some ''succeeded''
         else last (b_trace (branches ! k)) = SourceProcessingFailed \<and>
              b_status (branches ! k) = Some ''failed'')"
  proof (intro allI impI)
    fix k assume kl: "k < length items"
    with k have "known_source (items ! k)" by (simp add: list_all_length)
    from run_branch_outcome [OF this, of "branch_env env k"] b kl
    show "run_branch (branch_env env k) (items ! k) = Done (branches ! k) \<and>
        (if list_all (\<lambda>s. stage_result (branch_env env k) s = Proceed) (branch_stages (items ! k))
         then b_trace (branches ! k) =
                DetermineSourceType # branch_stages (items ! k) @ [SourceProcessingSucceeded] \<and>
              b_status (branches ! k) = Some ''succeeded''
         else last (b_trace (branches ! k)) = SourceProcessingFailed \<and>
              b_status (branches ! k) = Some ''failed'')"
      by auto
  qed
  from d have "r_processedDataSources r = Some branches" by (simp add: same_data_def)
  with i s r t l o show ?thesis by simp
qed

text \<open>
  The scenario of the specification: a website source that succeeds and a document source whose
  \<open>ProcessDocument\<close> task fails; the run ends in \<open>NotifyCompletion\<close> with the outcomes
  "succeeded" and "failed".
\<close>

theorem source_failures_isolated_witness:
  "isValid (validate_input (\<lambda>t. Returned True)
     \<lparr>pe_tenantId = Some ''tenant1'',
      pe_dataSources = Some [Some \<lparr>ds_type = Some (JStr ''website''),
                                   ds_url = Some (JStr ''https://example.com''),
                                   ds_name = Some (JStr ''Docs'')\<rparr>,
                             Some \<lparr>ds_type = Some (JStr ''document''),
                                   ds_url = Some (JStr ''missing-doc-id''),
                                   ds_name = Some (JStr ''Manual'')\<rparr>],
      pe_config = Some \<lparr>pc_crawlDepth = Some (JNum 1), pc_memoryDuration = None,
                        pc_maxDocuments = None, pc_embeddingModel = None\<rparr>\<rparr>) \<and>
   (case start_execution
      \<lparr>tenant_lookup = (\<lambda>t. Returned True),
       branch_env = (\<lambda>i. \<lparr>lambda_call = (\<lambda>s k. if i = 1 \<and> s = ProcessDocument
                                                  then Failed ''DocumentNotFound'' else Succeeded),
                            handler_aws = (\<lambda>s. \<lparr>aws_put = Returned (), aws_publish = Returned (),
                                                  aws_metric = Returned (), aws_now = 0\<rparr>)\<rparr>),
       top_env = \<lparr>lambda_call = (\<lambda>s k. Succeeded),
                  handler_aws = (\<lambda>s. \<lparr>aws_put = Returned (), aws_publish = Returned (),
                                        aws_metric = Returned (), aws_now = 0\<rparr>)\<rparr>\<rparr>
      \<lparr>pe_tenantId = Some ''tenant1'',
       pe_dataSources = Some [Some \<lparr>ds_type = Some (JStr ''website''),
                                    ds_url = Some (JStr ''https://example.com''),
                                    ds_name = Some (JStr ''Docs'')\<rparr>,
                              Some \<lparr>ds_type = Some (JStr ''document''),
                                    ds_url = Some (JStr ''missing-doc-id''),
                                    ds_name = Some (JStr ''Manual'')\<rparr>],
       pe_config = Some \<lparr>pc_crawlDepth = Some (JNum 1), pc_memoryDuration = None,
                         pc_maxDocuments = None, pc_embeddingModel = None\<rparr>\<rparr> of
      (r, e) \<Rightarrow>
        e = Ended \<and>
        r_trace r = [ValidateInput, CheckValidationResult, ProcessDataSources, ConfigureMemoryDuration,
                     UpdateMetadata, ScheduleNextCrawl, AnalyzeResults, NotifyCompletion] \<and>
        map_option (map (\<lambda>b. (last (b_trace b), b_status b))) (r_processedDataSources r) =
          Some [(SourceProcessingSucceeded, Some ''succeeded''), (SourceProcessingFailed, Some ''failed'')])"
proof -
  let ?event = "\<lparr>pe_tenantId = Some ''tenant1'',
      pe_dataSources = Some [Some \<lparr>ds_type = Some (JStr ''website''),
                                   ds_url = Some (JStr ''https://example.com''),
                                   ds_name = Some (JStr ''Docs'')\<rparr>,
                             Some \<lparr>ds_type = Some (JStr ''document''),
                                   ds_url = Some (JStr ''missing-doc-id''),
                                   ds_name = Some (JStr ''Manual'')\<rparr>],
      pe_config = Some \<lparr>pc_crawlDepth = Some (JNum 1), pc_memoryDuration = None,
                        pc_maxDocuments = None, pc_embeddingModel = None\<rparr>\<rparr>"
  let ?env = "\<lparr>tenant_lookup = (\<lambda>t. Returned True),
       branch_env = (\<lambda>i. \<lparr>lambda_call = (\<lambda>s k. if i = 1 \<and> s = ProcessDocument
                                                  then Failed ''DocumentNotFound'' else Succeeded),
                            handler_aws = (\<lambda>s. \<lparr>aws_put = Returned (), aws_publish = Returned (),
                                                  aws_metric = Returned (), aws_now = 0\<rparr>)\<rparr>),
       top_env = \<lparr>lambda_call = (\<lambda>s k. Succeeded),
                  handler_aws = (\<lambda>s. \<lparr>aws_put = Returned (), aws_publish = Returned (),
                                        aws_metric = Returned (), aws_now = 0\<rparr>)\<rparr>\<rparr>"
  have v: "isValid (validate_input (tenant_lookup ?env) ?event)"
    by code_simp
  have t: "tenant_steps ?env = [ConfigureMemoryDuration, UpdateMetadata, ScheduleNextCrawl,
                               AnalyzeResults, NotifyCompletion]"
    by code_simp
  have e: "tenant_steps_end ?env = Ended"
    by code_simp
  have b0: "list_all (\<lambda>s. stage_result (branch_env ?env 0) s = Proceed)
              (branch_stages (Some \<lparr>ds_type = Some (JStr ''website''),
                                   ds_url = Some (JStr ''https://example.com''),
                                   ds_name = Some (JStr ''Docs'')\<rparr>))"
    by code_simp
  have b1: "\<not> list_all (\<lambda>s. stage_result (branch_env ?env 1) s = Proceed)
              (branch_stages (Some \<lparr>ds_type = Some (JStr ''document''),
                                   ds_url = Some (JStr ''missing-doc-id''),
                                   ds_name = Some (JStr ''Manual'')\<rparr>))"
    by code_simp
  from source_failures_isolated [OF v] obtain items branches r where
    i: "pe_dataSources ?event = Some items" and
    s: "start_execution ?env ?event = (r, tenant_steps_end ?env)" and
    tr: "r_trace r = [ValidateInput, CheckValidationResult, ProcessDataSources] @ tenant_steps ?env" and
    p: "r_processedDataSources r = Some branches" and l: "length branches = length items" and
    o: "\<forall>k < length items.
        run_branch (branch_env ?env k) (items ! k) = Done (branches ! k) \<and>
        (if list_all (\<lambda>s. stage_result (branch_env ?env k) s = Proceed) (branch_stages (items ! k))
         then b_trace (branches ! k) =
                DetermineSourceType # branch_stages (items ! k) @ [SourceProcessingSucceeded] \<and>
              b_status (branches ! k) = Some ''succeeded''
         else last (b_trace (branches ! k)) = SourceProcessingFailed \<and>
              b_status (branches ! k) = Some ''failed'')"
    by blast
  from i have items: "items = [Some \<lparr>ds_type = Some (JStr ''website''),
                                   ds_url = Some (JStr ''https://example.com''),
                                   ds_name = Some (JStr ''Docs'')\<rparr>,
                             Some \<lparr>ds_type = Some (JStr ''document''),
                                   ds_url = Some (JStr ''missing-doc-id''),
                                   ds_name = Some (JStr ''Manual'')\<rparr>]"
    by simp
  from l items obtain x y where br: "branches = [x, y]"
    by (cases branches; cases "tl branches") auto
  from o [rule_format, of 0] b0 items br
  have x: "last (b_trace x) = SourceProcessingSucceeded \<and> b_status x = Some ''succeeded''"
    by simp
  from o [rule_format, of 1] b1 items br
  have y: "last (b_trace y) = SourceProcessingFailed \<and> b_status y = Some ''failed''"
    by simp
  from v s tr p t e br x y show ?thesis
    by simp
qed

text \<open>
  C1 as stated has every run with a valid input reach \<open>NotifyCompletion\<close>. \<open>AnalyzeResults\<close>
  has no catcher: in the same scenario, when its task fails the run fails there and
  \<open>NotifyCompletion\<close> is never entered.
\<close>

theorem source_failures_isolated_counterexample:
  "isValid (validate_input (\<lambda>t. Returned True)
     \<lparr>pe_tenantId = Some ''tenant1'',
      pe_dataSources = Some [Some \<lparr>ds_type = Some (JStr ''website''),
                                   ds_url = Some (JStr ''https://example.com''),
                                   ds_name = Some (JStr ''Docs'')\<rparr>,
                             Some \<lparr>ds_type = Some (JStr ''document''),
                                   ds_url = Some (JStr ''missing-doc-id''),
                                   ds_name = Some (JStr ''Manual'')\<rparr>],
      pe_config = Some \<lparr>pc_crawlDepth = Some (JNum 1), pc_memoryDuration = None,
                        pc_maxDocuments = None, pc_embeddingModel = None\<rparr>\<rparr>) \<and>
   (case start_execution
      \<lparr>tenant_lookup = (\<lambda>t. Returned True),
       branch_env = (\<lambda>i. \<lparr>lambda_call = (\<lambda>s k. if i = 1 \<and> s = ProcessDocument
                                                  then Failed ''DocumentNotFound'' else Succeeded),
                            handler_aws = (\<lambda>s. \<lparr>aws_put = Returned (), aws_publish = Returned (),
                                                  aws_metric = Returned (), aws_now = 0\<rparr>)\<rparr>),
       top_env = \<lparr>lambda_call = (\<lambda>s k. if s = AnalyzeResults then Failed ''Error'' else Succeeded),
                  handler_aws = (\<lambda>s. \<lparr>aws_put = Returned (), aws_publish = Returned (),
                                        aws_metric = Returned (), aws_now = 0\<rparr>)\<rparr>\<rparr>
      \<lparr>pe_tenantId = Some ''tenant1'',
       pe_dataSources = Some [Some \<lparr>ds_type = Some (JStr ''website''),
                                    ds_url = Some (JStr ''https://example.com''),
                                    ds_name = Some (JStr ''Docs'')\<rparr>,
                              Some \<lparr>ds_type = Some (JStr ''document''),
                                    ds_url = Some (JStr ''missing-doc-id''),
                                    ds_name = Some (JStr ''Manual'')\<rparr>],
       pe_config = Some \<lparr>pc_crawlDepth = Some (JNum 1), pc_memoryDuration = None,
                         pc_maxDocuments = None, pc_embeddingModel = None\<rparr>\<rparr> of
      (r, e) \<Rightarrow>
        e = Failed_with ''Error'' \<and>
        r_trace r = [ValidateInput, CheckValidationResult, ProcessDataSources, ConfigureMemoryDuration,
                     UpdateMetadata, ScheduleNextCrawl, AnalyzeResults] \<and>
        NotifyCompletion \<notin> set (r_trace r))"
  by code_simp

end
